theory Spec2Isabelle
  imports Main "HOL-Library.Word" "HOL-Library.Signed_Division"
begin

section \<open>Go values shared by the packages\<close>

text \<open>
  A Go function of this repository either returns or panics. Run-time panics that the
  modelled code can raise are values of \<open>panic\<close>; \<open>outcome\<close> is the result of a call
  that may panic.
\<close>

datatype panic = NilPointerDereference | IntegerDivideByZero | NegativeShiftAmount

datatype 'a outcome = Returns 'a | Panics panic

section \<open>Package retry: the sleep duration of the retryer\<close>

text \<open>
  \<open>time.Duration\<close> is an \<open>int64\<close>: a 64-bit word read in two's complement by \<open>sint\<close>.
  Multiplication wraps around; Go's integer division truncates towards zero (\<open>sdiv\<close>)
  and panics on a zero divisor. The attempt number is a Go \<open>int\<close> (64 bits).
\<close>

type_synonym Duration = "64 word"

datatype Algorithm = AlgorithmLinear | AlgorithmExponential | AlgorithmFibonacci

record RetryerOptions =
  Algorithm :: Algorithm
  MaxRetries :: int
  MinDelay :: Duration
  MaxDelay :: Duration

text \<open>
  Modelled from the spec: \<open>maths.Max\<close> and \<open>maths.Min\<close> (package maths is not among the
  sources) return the larger and the smaller of their two arguments, here on the signed
  reading of a duration.
\<close>

definition maths_Max :: "Duration \<Rightarrow> Duration \<Rightarrow> Duration" where
  "maths_Max a b = (if sint b < sint a then a else b)"

definition maths_Min :: "Duration \<Rightarrow> Duration \<Rightarrow> Duration" where
  "maths_Min a b = (if sint a < sint b then a else b)"

text \<open>The quotient \<open>a / b\<close> of two \<open>int64\<close> values.\<close>

definition div64 :: "Duration \<Rightarrow> Duration \<Rightarrow> panic + Duration" where
  "div64 a b =
     (if b = 0 then Inl IntegerDivideByZero
      else Inr (word_of_int (sint a sdiv sint b)))"

text \<open>
  The \<open>switch\<close> of \<open>Retryer.duration\<close>: the number of steps \<open>n\<close>. The linear case is
  the attempt itself; the exponential case is \<open>1 << attempt\<close>, which panics on a
  negative count and is 0 from 64 on; the Fibonacci case converts a \<open>float64\<close>
  (\<open>math.Round(math.Pow(math.Phi, attempt) / sqrt5)\<close>) to an \<open>int64\<close>. The floating
  point computation is the parameter \<open>fibonacci\<close>: any function from the attempt to a
  64-bit value.
\<close>

definition steps :: "(64 word \<Rightarrow> Duration) \<Rightarrow> Algorithm \<Rightarrow> 64 word \<Rightarrow> panic + Duration" where
  "steps fibonacci alg attempt =
     (case alg of
        AlgorithmLinear \<Rightarrow> Inr attempt
      | AlgorithmExponential \<Rightarrow>
          (if sint attempt < 0 then Inl NegativeShiftAmount
           else Inr (push_bit (nat (sint attempt)) 1))
      | AlgorithmFibonacci \<Rightarrow> Inr (fibonacci attempt))"

definition duration :: "(64 word \<Rightarrow> Duration) \<Rightarrow> RetryerOptions \<Rightarrow> 64 word \<Rightarrow> panic + Duration" where
  "duration fibonacci r attempt =
     (case steps fibonacci (Algorithm r) attempt of
        Inl p \<Rightarrow> Inl p
      | Inr n \<Rightarrow>
          (let d = n * MinDelay r in
           case div64 d (MinDelay r) of
             Inl p \<Rightarrow> Inl p
           | Inr q \<Rightarrow>
               if n \<noteq> q then Inr (MaxDelay r)
               else Inr (maths_Min (MaxDelay r) (maths_Max (MinDelay r) d))))"

text \<open>The product of the step count and the minimum delay does not fit an \<open>int64\<close>.\<close>

definition overflows :: "Duration \<Rightarrow> Duration \<Rightarrow> bool" where
  "overflows n m \<longleftrightarrow> sint n * sint m < - (2 ^ 63) \<or> 2 ^ 63 \<le> sint n * sint m"

section \<open>Packages objval and objerr: values and errors of the object store clients\<close>

text \<open>
  Sizes and offsets are \<open>int64\<close> in the source; no modelled computation on them leaves
  the 64-bit range, so they are integers here. The field \<open>Size\<close> of \<open>objval.Part\<close> is
  \<open>PartSize\<close>, since \<open>objval.ObjectAttrs\<close> has a field \<open>Size\<close> of its own. A byte string
  (an \<open>io.ReadSeeker\<close> over memory, an object's content) is a \<open>string\<close>: a list of bytes.
\<close>

record ObjectAttrs =
  Key :: string
  ETag :: "string option"
  Size :: int
  LastModified :: "nat option"

record Part =
  ID :: string
  Number :: int
  PartSize :: int

record ByteRange =
  Start :: int
  End :: int

text \<open>
  The errors of the storage SDKs: the sentinel errors of \<open>cloud.google.com/go/storage\<close>
  and a \<open>googleapi.Error\<close> with its HTTP status; an \<open>awserr.Error\<close> with its code and
  message.
\<close>

datatype gcs_error = ErrObjectNotExist | ErrBucketNotExist | GoogleAPIError nat

datatype aws_error = AwsError string string

text \<open>
  The errors the clients return. \<open>Wrapped label e\<close> is \<open>fmt.Errorf("label: %w", e)\<close>.
\<close>

datatype error =
    ErrIncludeAndExcludeAreMutuallyExclusive
  | ErrUnsupportedOperation
  | ErrByteRangeRequired
  | InvalidByteRangeError int int
  | NotFoundError string string
  | ErrUnauthenticated
  | ErrUnauthorized
  | GCPError gcs_error
  | AWSError aws_error
  | Wrapped string error

text \<open>
  Modelled from the spec: \<open>objerr.IsNotFoundError\<close> (package objerr is not among the
  sources) recognises the NotFound kind of the error taxonomy, also under the phase
  labels that wrap it ("preserving unwrap to the root cause"). A nil error is not one.
\<close>

fun is_not_found :: "error \<Rightarrow> bool" where
  "is_not_found (NotFoundError t n) = True"
| "is_not_found (Wrapped l e) = is_not_found e"
| "is_not_found e = False"

definition IsNotFoundError :: "error option \<Rightarrow> bool" where
  "IsNotFoundError err = (case err of None \<Rightarrow> False | Some e \<Rightarrow> is_not_found e)"

text \<open>
  Modelled from the spec: \<open>ByteRange.Valid\<close> (its file is not among the sources). A nil
  range is an error only where a range is required; a range must start at or after 0
  and, where it has an end, end at or after its start. The end is optional: the zero
  value of the Go field stands for an open end.
\<close>

definition Valid :: "ByteRange option \<Rightarrow> bool \<Rightarrow> error option" where
  "Valid b required =
     (case b of
        None \<Rightarrow> (if required then Some ErrByteRangeRequired else None)
      | Some r \<Rightarrow>
          (if Start r < 0 \<or> (End r \<noteq> 0 \<and> End r < Start r)
           then Some (InvalidByteRangeError (Start r) (End r)) else None))"

text \<open>
  Modelled from the spec: \<open>objcli.ShouldIgnore\<close> (package objcli is not among the
  sources): an object is skipped when an include filter is given and no pattern of it
  matches, or an exclude filter is given and a pattern of it matches. A compiled
  \<open>*regexp.Regexp\<close> is the predicate it decides; a nil slice is \<open>None\<close>, an empty non-nil
  slice is \<open>Some []\<close>.
\<close>

type_synonym regexp = "string \<Rightarrow> bool"

definition ShouldIgnore :: "string \<Rightarrow> regexp list option \<Rightarrow> regexp list option \<Rightarrow> bool" where
  "ShouldIgnore query include exclude =
     ((case include of None \<Rightarrow> False | Some res \<Rightarrow> \<not> list_ex (\<lambda>re. re query) res)
      \<or> (case exclude of None \<Rightarrow> False | Some res \<Rightarrow> list_ex (\<lambda>re. re query) res))"

section \<open>Package objgcp: the client for Google Storage\<close>

subsection \<open>The storage service behind \<open>serviceAPI\<close>\<close>

text \<open>
  The client reaches Google Storage through the interface \<open>serviceAPI\<close>. The service is
  modelled as a state: the objects of every bucket with their content, the requests
  received so far, a failure the service answers a request with instead of serving it
  (none on the emulated backend), the pages a listing yields, and what makes an object's
  entity tag and modification time. The same state carries the supply of
  \<open>uuid.NewString\<close> and what \<open>log.Errorf\<close> has written.
\<close>

datatype gcs_request =
    AttrsRequest string string
  | WriteRequest string string string
  | DeleteRequest string string
  | ComposeRequest string string "string list"
  | CopyRequest string string string
  | ListRequest string string string

record storage_ObjectAttrs =
  Name :: string
  Prefix :: string
  Etag :: string
  RemoteSize :: int
  Updated :: nat

record gcs =
  objs :: "string \<times> string \<Rightarrow> string option"
  faults :: "gcs_request \<Rightarrow> gcs_error option"
  calls :: "gcs_request list"
  listing :: "string \<Rightarrow> string \<Rightarrow> string \<Rightarrow> (gcs_error + storage_ObjectAttrs) list"
  etag_of :: "string \<Rightarrow> string"
  mtime :: "string \<times> string \<Rightarrow> nat"
  uuids :: "nat \<Rightarrow> string"
  drawn :: nat
  logged :: "(string list \<times> error) list"

text \<open>
  \<open>MaxComposable\<close> is "the hard limit imposed by Google Storage on the maximum number of
  objects which can be composed into one".
\<close>

definition MaxComposable :: nat where
  "MaxComposable = 32"

definition called :: "gcs \<Rightarrow> gcs_request \<Rightarrow> gcs" where
  "called w r = w\<lparr>calls := calls w @ [r]\<rparr>"

definition svc_Attrs :: "gcs \<Rightarrow> string \<Rightarrow> string \<Rightarrow> (gcs_error + storage_ObjectAttrs) \<times> gcs" where
  "svc_Attrs w bucket key =
     (let w' = called w (AttrsRequest bucket key) in
      case faults w (AttrsRequest bucket key) of
        Some e \<Rightarrow> (Inl e, w')
      | None \<Rightarrow>
          (case objs w (bucket, key) of
             None \<Rightarrow> (Inl ErrObjectNotExist, w')
           | Some c \<Rightarrow>
               (Inr \<lparr>Name = key, Prefix = [], Etag = etag_of w c,
                     RemoteSize = int (length c), Updated = mtime w (bucket, key)\<rparr>, w')))"

definition svc_Write :: "gcs \<Rightarrow> string \<Rightarrow> string \<Rightarrow> string \<Rightarrow> gcs_error option \<times> gcs" where
  "svc_Write w bucket key body =
     (let w' = called w (WriteRequest bucket key body) in
      case faults w (WriteRequest bucket key body) of
        Some e \<Rightarrow> (Some e, w')
      | None \<Rightarrow> (None, w'\<lparr>objs := (objs w')((bucket, key) \<mapsto> body)\<rparr>))"

definition svc_Delete :: "gcs \<Rightarrow> string \<Rightarrow> string \<Rightarrow> gcs_error option \<times> gcs" where
  "svc_Delete w bucket key =
     (let w' = called w (DeleteRequest bucket key) in
      case faults w (DeleteRequest bucket key) of
        Some e \<Rightarrow> (Some e, w')
      | None \<Rightarrow>
          (case objs w (bucket, key) of
             None \<Rightarrow> (Some ErrObjectNotExist, w')
           | Some c \<Rightarrow> (None, w'\<lparr>objs := (objs w')((bucket, key) := None)\<rparr>)))"

text \<open>
  Composition reads every source, in the order given, before it writes the destination.
  It fails for no source, for more than \<open>MaxComposable\<close> sources and for a source that
  does not exist, and then writes nothing.
\<close>

definition contents :: "gcs \<Rightarrow> string \<Rightarrow> string list \<Rightarrow> string" where
  "contents w bucket keys = concat (map (\<lambda>k. case objs w (bucket, k) of None \<Rightarrow> [] | Some c \<Rightarrow> c) keys)"

definition svc_Compose :: "gcs \<Rightarrow> string \<Rightarrow> string \<Rightarrow> string list \<Rightarrow> gcs_error option \<times> gcs" where
  "svc_Compose w bucket dst srcs =
     (let w' = called w (ComposeRequest bucket dst srcs) in
      case faults w (ComposeRequest bucket dst srcs) of
        Some e \<Rightarrow> (Some e, w')
      | None \<Rightarrow>
          (if srcs = [] \<or> MaxComposable < length srcs then (Some (GoogleAPIError 400), w')
           else if list_ex (\<lambda>k. objs w (bucket, k) = None) srcs then (Some ErrObjectNotExist, w')
           else (None, w'\<lparr>objs := (objs w')((bucket, dst) \<mapsto> contents w bucket srcs)\<rparr>)))"

definition svc_Copy :: "gcs \<Rightarrow> string \<Rightarrow> string \<Rightarrow> string \<Rightarrow> gcs_error option \<times> gcs" where
  "svc_Copy w bucket dst src =
     (let w' = called w (CopyRequest bucket dst src) in
      case faults w (CopyRequest bucket dst src) of
        Some e \<Rightarrow> (Some e, w')
      | None \<Rightarrow>
          (case objs w (bucket, src) of
             None \<Rightarrow> (Some ErrObjectNotExist, w')
           | Some c \<Rightarrow> (None, w'\<lparr>objs := (objs w')((bucket, dst) \<mapsto> c)\<rparr>)))"

definition svc_Objects :: "gcs \<Rightarrow> string \<Rightarrow> string \<Rightarrow> string \<Rightarrow> (gcs_error + storage_ObjectAttrs) list \<times> gcs" where
  "svc_Objects w bucket prefix delimiter =
     (let w' = called w (ListRequest bucket prefix delimiter) in
      case faults w (ListRequest bucket prefix delimiter) of
        Some e \<Rightarrow> ([Inl e], w')
      | None \<Rightarrow> (listing w bucket prefix delimiter, w'))"

definition NewString :: "gcs \<Rightarrow> string \<times> gcs" where
  "NewString w = (uuids w (drawn w), w\<lparr>drawn := Suc (drawn w)\<rparr>)"

subsection \<open>Helpers of the package that are not among the sources\<close>

text \<open>
  Modelled from the spec: \<open>handleError\<close> of objgcp (its file is not among the sources)
  maps a nil error to nil and a native error to NotFound (a missing object or bucket),
  to the unauthenticated or unauthorized error (HTTP 401 and 403), or to a provider
  error that carries the cause. \<open>handle_gcp\<close> is its non-nil case.
\<close>

definition handle_gcp :: "string \<Rightarrow> string \<Rightarrow> gcs_error \<Rightarrow> error" where
  "handle_gcp bucket key e =
     (case e of
        ErrObjectNotExist \<Rightarrow> NotFoundError ''key'' key
      | ErrBucketNotExist \<Rightarrow> NotFoundError ''bucket'' bucket
      | GoogleAPIError code \<Rightarrow>
          (if code = 401 then ErrUnauthenticated
           else if code = 403 then ErrUnauthorized
           else GCPError (GoogleAPIError code)))"

definition handleError_gcp :: "string \<Rightarrow> string \<Rightarrow> gcs_error option \<Rightarrow> error option" where
  "handleError_gcp bucket key err = map_option (handle_gcp bucket key) err"

text \<open>
  Modelled from the spec: \<open>partPrefix\<close> and \<open>partKey\<close> (not among the sources). The
  session token is a key prefix under which the intermediate objects of an upload are
  created; a key under the prefix is told apart from the others by a token of the UUID
  supply. The separators are this model's choice and no theorem depends on them.
\<close>

definition partPrefix :: "string \<Rightarrow> string \<Rightarrow> string" where
  "partPrefix id' key = key @ ''-mpu-'' @ id'"

definition partKey :: "gcs \<Rightarrow> string \<Rightarrow> string \<Rightarrow> string \<times> gcs" where
  "partKey w id' key = (let (u, w') = NewString w in (partPrefix id' key @ ''/'' @ u, w'))"

subsection \<open>The client\<close>

text \<open>
  A Go result \<open>(value, error)\<close> is a sum: \<open>Inl\<close> the error (the value is then nil or
  zero), \<open>Inr\<close> the value (the error is then nil). A result \<open>error\<close> is an option. Reading
  a body that is held in memory does not fail, so the checksum pass of \<open>PutObject\<close> and
  \<open>aws.SeekerLen\<close> have no error branch; \<open>query.SetAttrSelection\<close> is given four
  attribute names the SDK knows and does not fail; the retry policy of a handle does not
  change what a request does.
\<close>

definition GetObjectAttrs_gcp :: "gcs \<Rightarrow> string \<Rightarrow> string \<Rightarrow> (error + ObjectAttrs) \<times> gcs" where
  "GetObjectAttrs_gcp w bucket key =
     (case svc_Attrs w bucket key of
        (Inl e, w') \<Rightarrow> (Inl (handle_gcp bucket key e), w')
      | (Inr remote, w') \<Rightarrow>
          (Inr \<lparr>Key = key, ETag = Some (Etag remote), Size = RemoteSize remote,
                LastModified = Some (Updated remote)\<rparr>, w'))"

definition PutObject_gcp :: "gcs \<Rightarrow> string \<Rightarrow> string \<Rightarrow> string \<Rightarrow> error option \<times> gcs" where
  "PutObject_gcp w bucket key body =
     (case svc_Write w bucket key body of (err, w') \<Rightarrow> (handleError_gcp bucket key err, w'))"

text \<open>
  \<open>DeleteObjects\<close> hands one delete per key to a worker pool and returns \<open>pool.Stop()\<close>.
  Modelled from the spec: the pool (package hofp; only its options are among the
  sources) stops accepting work after the first error and reports the first error
  encountered. The schedule modelled is the sequential one: the deletes run in the order
  queued, and once one has failed nothing further is queued.
\<close>

definition del :: "gcs \<Rightarrow> string \<Rightarrow> string \<Rightarrow> error option \<times> gcs" where
  "del w bucket key =
     (case svc_Delete w bucket key of
        (None, w') \<Rightarrow> (None, w')
      | (Some e, w') \<Rightarrow>
          (if e = ErrObjectNotExist then (None, w') else (Some (handle_gcp bucket key e), w')))"

fun DeleteObjects_gcp :: "gcs \<Rightarrow> string \<Rightarrow> string list \<Rightarrow> error option \<times> gcs" where
  "DeleteObjects_gcp w bucket [] = (None, w)"
| "DeleteObjects_gcp w bucket (key # keys) =
     (case del w bucket key of
        (Some e, w') \<Rightarrow> (Some e, w')
      | (None, w') \<Rightarrow> DeleteObjects_gcp w' bucket keys)"

text \<open>
  The loop of \<open>IterateObjects\<close> over what the iterator yields: the end of the list is
  \<open>iterator.Done\<close>. The callback \<open>fn\<close> works on the caller's own state \<open>'u\<close>.
\<close>

fun iterate_gcp ::
  "regexp list option \<Rightarrow> regexp list option \<Rightarrow> (ObjectAttrs \<Rightarrow> 'u \<Rightarrow> error option \<times> 'u)
     \<Rightarrow> 'u \<Rightarrow> (gcs_error + storage_ObjectAttrs) list \<Rightarrow> error option \<times> 'u" where
  "iterate_gcp include exclude fn u [] = (None, u)"
| "iterate_gcp include exclude fn u (Inl e # rest) =
     (Some (Wrapped ''failed to get next object'' (GCPError e)), u)"
| "iterate_gcp include exclude fn u (Inr remote # rest) =
     (if ShouldIgnore (Name remote) include exclude
      then iterate_gcp include exclude fn u rest
      else
        (let attrs =
           (if Prefix remote = []
            then \<lparr>Key = Name remote, ETag = None, Size = RemoteSize remote,
                  LastModified = Some (Updated remote)\<rparr>
            else \<lparr>Key = Prefix remote, ETag = None, Size = 0, LastModified = None\<rparr>)
         in case fn attrs u of
              (Some err, u') \<Rightarrow> (Some err, u')
            | (None, u') \<Rightarrow> iterate_gcp include exclude fn u' rest))"

definition IterateObjects_gcp ::
  "gcs \<Rightarrow> string \<Rightarrow> string \<Rightarrow> string \<Rightarrow> regexp list option \<Rightarrow> regexp list option
     \<Rightarrow> (ObjectAttrs \<Rightarrow> 'u \<Rightarrow> error option \<times> 'u) \<Rightarrow> 'u \<Rightarrow> (error option \<times> 'u) \<times> gcs" where
  "IterateObjects_gcp w bucket prefix delimiter include exclude fn u =
     (if include \<noteq> None \<and> exclude \<noteq> None
      then ((Some ErrIncludeAndExcludeAreMutuallyExclusive, u), w)
      else
        (case svc_Objects w bucket prefix delimiter of
           (it, w') \<Rightarrow> (iterate_gcp include exclude fn u it, w')))"

definition CreateMultipartUpload_gcp :: "gcs \<Rightarrow> string \<Rightarrow> string \<Rightarrow> (error + string) \<times> gcs" where
  "CreateMultipartUpload_gcp w bucket key = (case NewString w of (u, w') \<Rightarrow> (Inr u, w'))"

definition UploadPart_gcp ::
  "gcs \<Rightarrow> string \<Rightarrow> string \<Rightarrow> string \<Rightarrow> int \<Rightarrow> string \<Rightarrow> (error + Part) \<times> gcs" where
  "UploadPart_gcp w bucket id' key number body =
     (let size = int (length body) in
      case partKey w id' key of
        (intermediate, w1) \<Rightarrow>
          (case PutObject_gcp w1 bucket intermediate body of
             (Some err, w2) \<Rightarrow> (Inl err, w2)
           | (None, w2) \<Rightarrow> (Inr \<lparr>ID = intermediate, Number = number, PartSize = size\<rparr>, w2)))"

text \<open>
  \<open>UploadPartCopy\<close> leaves \<open>Number\<close> of the part it returns at its zero value.
\<close>

definition UploadPartCopy_gcp ::
  "gcs \<Rightarrow> string \<Rightarrow> string \<Rightarrow> string \<Rightarrow> string \<Rightarrow> int \<Rightarrow> ByteRange option \<Rightarrow> (error + Part) \<times> gcs" where
  "UploadPartCopy_gcp w bucket id' dst src number br =
     (case Valid br False of
        Some err \<Rightarrow> (Inl err, w)
      | None \<Rightarrow>
          (case GetObjectAttrs_gcp w bucket src of
             (Inl err, w1) \<Rightarrow> (Inl (Wrapped ''failed to get object attributes'' err), w1)
           | (Inr attrs, w1) \<Rightarrow>
               (if (case br of None \<Rightarrow> False
                    | Some r \<Rightarrow> \<not> (Start r = 0 \<and> End r = Size attrs - 1))
                then (Inl ErrUnsupportedOperation, w1)
                else
                  (case partKey w1 id' dst of
                     (intermediate, w2) \<Rightarrow>
                       (case svc_Copy w2 bucket intermediate src of
                          (Some e, w3) \<Rightarrow> (Inl (handle_gcp bucket intermediate e), w3)
                        | (None, w3) \<Rightarrow>
                            (Inr \<lparr>ID = intermediate, Number = 0, PartSize = Size attrs\<rparr>, w3))))))"

definition compose :: "gcs \<Rightarrow> string \<Rightarrow> string \<Rightarrow> string list \<Rightarrow> error option \<times> gcs" where
  "compose w bucket key parts =
     (case svc_Compose w bucket key parts of (err, w') \<Rightarrow> (handleError_gcp bucket key err, w'))"

text \<open>\<open>cleanup\<close> returns nothing: an error of \<open>DeleteObjects\<close> is logged with the keys.\<close>

definition cleanup :: "gcs \<Rightarrow> string \<Rightarrow> string list \<Rightarrow> gcs" where
  "cleanup w bucket keys =
     (case DeleteObjects_gcp w bucket keys of
        (None, w') \<Rightarrow> w'
      | (Some err, w') \<Rightarrow> w'\<lparr>logged := logged w' @ [(keys, err)]\<rparr>)"

text \<open>
  \<open>complete\<close>: the deferred \<open>cleanup\<close> of the intermediate key runs when the call
  returns, after the recursive call or after a failed composition.
\<close>

function complete :: "gcs \<Rightarrow> string \<Rightarrow> string \<Rightarrow> string list \<Rightarrow> error option \<times> gcs" where
  "complete w bucket key parts =
     (if length parts \<le> MaxComposable then compose w bucket key parts
      else
        (case NewString w of
           (u, w1) \<Rightarrow>
             (case partKey w1 u key of
                (intermediate, w2) \<Rightarrow>
                  (case compose w2 bucket intermediate (take MaxComposable parts) of
                     (Some err, w3) \<Rightarrow> (Some err, cleanup w3 bucket [intermediate])
                   | (None, w3) \<Rightarrow>
                       (case complete w3 bucket key (intermediate # drop MaxComposable parts) of
                          (r, w4) \<Rightarrow> (r, cleanup w4 bucket [intermediate]))))))"
  by pat_completeness auto
termination
  by (relation "measure (\<lambda>(w, bucket, key, parts). length parts)")
    (auto simp: MaxComposable_def)

declare complete.simps [simp del]

text \<open>
  The same recursion with a bound on its depth: \<open>None\<close> when \<open>fuel\<close> nested calls do not
  reach the end.
\<close>

fun complete_within :: "nat \<Rightarrow> gcs \<Rightarrow> string \<Rightarrow> string \<Rightarrow> string list \<Rightarrow> (error option \<times> gcs) option" where
  "complete_within 0 w bucket key parts = None"
| "complete_within (Suc fuel) w bucket key parts =
     (if length parts \<le> MaxComposable then Some (compose w bucket key parts)
      else
        (case NewString w of
           (u, w1) \<Rightarrow>
             (case partKey w1 u key of
                (intermediate, w2) \<Rightarrow>
                  (case compose w2 bucket intermediate (take MaxComposable parts) of
                     (Some err, w3) \<Rightarrow> Some (Some err, cleanup w3 bucket [intermediate])
                   | (None, w3) \<Rightarrow>
                       (case complete_within fuel w3 bucket key
                               (intermediate # drop MaxComposable parts) of
                          None \<Rightarrow> None
                        | Some (r, w4) \<Rightarrow> Some (r, cleanup w4 bucket [intermediate]))))))"

text \<open>
  \<open>slices.Index\<close> and \<open>slices.Delete(converted, idx, idx+1)\<close> remove the first
  occurrence of the key: \<open>remove1\<close>.
\<close>

definition CompleteMultipartUpload_gcp ::
  "gcs \<Rightarrow> string \<Rightarrow> string \<Rightarrow> string \<Rightarrow> Part list \<Rightarrow> error option \<times> gcs" where
  "CompleteMultipartUpload_gcp w bucket id' key parts =
     (let converted = map ID parts in
      case complete w bucket key converted of
        (Some err, w1) \<Rightarrow> (Some err, w1)
      | (None, w1) \<Rightarrow> (None, cleanup w1 bucket (remove1 key converted)))"

text \<open>
  \<open>AppendToObject\<close>. The guard \<open>objerr.IsNotFoundError(err) || attrs.Size == 0\<close> reads
  \<open>attrs.Size\<close> whenever the error is not a NotFound error; \<open>attrs\<close> is nil whenever
  \<open>GetObjectAttrs\<close> returned an error, and the read then panics. The statement
  \<open>if err != nil\<close> that follows the guard is reached with a nil error only.
\<close>

definition AppendToObject_gcp :: "gcs \<Rightarrow> string \<Rightarrow> string \<Rightarrow> string \<Rightarrow> error option outcome \<times> gcs" where
  "AppendToObject_gcp w bucket key data =
     (case GetObjectAttrs_gcp w bucket key of
        (Inl err, w1) \<Rightarrow>
          (if IsNotFoundError (Some err)
           then (case PutObject_gcp w1 bucket key data of (r, w2) \<Rightarrow> (Returns r, w2))
           else (Panics NilPointerDereference, w1))
      | (Inr attrs, w1) \<Rightarrow>
          (if IsNotFoundError None \<or> Size attrs = 0
           then (case PutObject_gcp w1 bucket key data of (r, w2) \<Rightarrow> (Returns r, w2))
           else
             (case CreateMultipartUpload_gcp w1 bucket key of
                (Inl err, w2) \<Rightarrow>
                  (Returns (Some (Wrapped ''failed to start multipart upload'' err)), w2)
              | (Inr id', w2) \<Rightarrow>
                  (case UploadPart_gcp w2 bucket id' key 2 data of
                     (Inl err, w3) \<Rightarrow> (Returns (Some (Wrapped ''failed to upload part'' err)), w3)
                   | (Inr intermediate, w3) \<Rightarrow>
                       (let part = \<lparr>ID = key, Number = 1, PartSize = Size attrs\<rparr> in
                        case CompleteMultipartUpload_gcp w3 bucket id' key [part, intermediate] of
                          (Some err, w4) \<Rightarrow>
                            (Returns (Some (Wrapped ''failed to complete multipart upload'' err)), w4)
                        | (None, w4) \<Rightarrow> (Returns None, w4))))))"

subsection \<open>The keys \<open>complete\<close> generates\<close>

text \<open>
  \<open>ikey w key n\<close> is the intermediate key \<open>partKey(uuid.NewString(), key)\<close> made when
  \<open>n\<close> tokens of the supply have been drawn. \<open>fresh\<close> says of the next \<open>2 * length parts\<close>
  tokens what random tokens give: the keys made from them differ from one another, from
  every part identifier and from the destination key.
\<close>

definition ikey :: "gcs \<Rightarrow> string \<Rightarrow> nat \<Rightarrow> string" where
  "ikey w key n = partPrefix (uuids w n) key @ ''/'' @ uuids w (Suc n)"

definition fresh :: "gcs \<Rightarrow> string \<Rightarrow> string list \<Rightarrow> bool" where
  "fresh w key parts =
     (let ks = map (ikey w key) [drawn w ..< drawn w + 2 * length parts]
      in distinct ks \<and> list_all (\<lambda>k. k \<notin> set parts \<and> k \<noteq> key) ks)"

text \<open>The keys made from those tokens.\<close>

definition generated :: "gcs \<Rightarrow> string \<Rightarrow> string list \<Rightarrow> string set" where
  "generated w key parts = ikey w key ` {drawn w ..< drawn w + 2 * length parts}"

text \<open>No delete request is answered with a failure.\<close>

definition deletes_served :: "gcs \<Rightarrow> bool" where
  "deletes_served w = (\<forall>bucket key. faults w (DeleteRequest bucket key) = None)"

subsection \<open>The emulated backend\<close>

text \<open>
  A backend that holds the given objects and serves every request; the tokens of its
  UUID supply are \<open>u\<close>, \<open>uu\<close>, \<open>uuu\<close> and so on.
\<close>

definition emulated :: "(string \<times> string \<Rightarrow> string option) \<Rightarrow> gcs" where
  "emulated store =
     \<lparr>objs = store, faults = (\<lambda>r. None), calls = [], listing = (\<lambda>bucket prefix delimiter. []),
      etag_of = (\<lambda>c. c), mtime = (\<lambda>x. 0), uuids = (\<lambda>n. replicate (Suc n) CHR ''u''),
      drawn = 0, logged = []\<rparr>"

text \<open>
  Thirty-three parts \<open>p\<close>, \<open>pp\<close>, \<open>ppp\<close> and so on, each stored with its own name as
  content: all of them stored, and all but the last.
\<close>

definition pid :: "nat \<Rightarrow> string" where
  "pid n = replicate (Suc n) CHR ''p''"

definition thirty_three :: "Part list" where
  "thirty_three = map (\<lambda>n. \<lparr>ID = pid n, Number = int n + 1, PartSize = int n + 1\<rparr>) [0..<33]"

definition all_parts_stored :: gcs where
  "all_parts_stored =
     emulated (\<lambda>(bucket, key).
       if bucket = ''b'' \<and> key \<in> set (map pid [0..<33]) then Some key else None)"

definition last_part_missing :: gcs where
  "last_part_missing =
     emulated (\<lambda>(bucket, key).
       if bucket = ''b'' \<and> key \<in> set (map pid [0..<32]) then Some key else None)"

text \<open>One object \<open>k\<close> in bucket \<open>b\<close>, and the same with its attribute request failing.\<close>

definition one_object :: "string \<Rightarrow> gcs" where
  "one_object c = emulated (\<lambda>x. if x = (''b'', ''k'') then Some c else None)"

definition attrs_unavailable :: "string \<Rightarrow> gcs" where
  "attrs_unavailable c =
     (one_object c)\<lparr>faults := (\<lambda>r. if r = AttrsRequest ''b'' ''k'' then Some (GoogleAPIError 503) else None)\<rparr>"

section \<open>Package objaws: the client for AWS S3\<close>

subsection \<open>The S3 service behind \<open>serviceAPI\<close>\<close>

text \<open>
  The service is a state, as for Google Storage: the objects, the open multipart uploads
  and their parts, the requests received, the failure a request is answered with instead
  of being served, the failure a batch delete reports for a single key, and the pages of
  a listing. A request is written with the fields the client sets.
\<close>

datatype s3_request =
    HeadObjectInput string string
  | PutObjectInput string string string
  | GetObjectInput string string "ByteRange option"
  | DeleteObjectsInput string "string list" bool
  | ListObjectsV2Input string string
  | CreateMultipartUploadInput string string
  | UploadPartInput string string string int string
  | UploadPartCopyInput string string string string int "ByteRange option"
  | CompleteMultipartUploadInput string string string "(string \<times> int) list"
  | AbortMultipartUploadInput string string string

record s3_Error =
  ErrCode :: string
  ErrMessage :: string
  ErrKey :: string

record s3_Object =
  ObjKey :: string
  ObjSize :: int
  ObjLastModified :: "nat option"

record s3 =
  s3_objs :: "string \<times> string \<Rightarrow> string option"
  s3_uploads :: "string \<Rightarrow> (string \<times> string) option"
  s3_parts :: "string \<times> int \<Rightarrow> string option"
  s3_faults :: "s3_request \<Rightarrow> aws_error option"
  s3_key_faults :: "string \<times> string \<Rightarrow> aws_error option"
  s3_calls :: "s3_request list"
  s3_pages :: "string \<Rightarrow> string \<Rightarrow> s3_Object list list"
  s3_etag_of :: "string \<Rightarrow> string"
  s3_mtime :: "string \<times> string \<Rightarrow> nat"
  s3_upload_ids :: "nat \<Rightarrow> string"
  s3_issued :: nat
  s3_logged :: "(string \<times> string) list"

definition s3_called :: "s3 \<Rightarrow> s3_request \<Rightarrow> s3" where
  "s3_called w r = w\<lparr>s3_calls := s3_calls w @ [r]\<rparr>"

text \<open>The bytes of an inclusive range; an end of 0 is open.\<close>

definition range_of :: "ByteRange option \<Rightarrow> string \<Rightarrow> string" where
  "range_of br c =
     (case br of
        None \<Rightarrow> c
      | Some r \<Rightarrow>
          (if End r = 0 then drop (nat (Start r)) c
           else take (nat (End r - Start r + 1)) (drop (nat (Start r)) c)))"

definition s3_HeadObject :: "s3 \<Rightarrow> string \<Rightarrow> string \<Rightarrow> (aws_error + ObjectAttrs) \<times> s3" where
  "s3_HeadObject w bucket key =
     (let w' = s3_called w (HeadObjectInput bucket key) in
      case s3_faults w (HeadObjectInput bucket key) of
        Some e \<Rightarrow> (Inl e, w')
      | None \<Rightarrow>
          (case s3_objs w (bucket, key) of
             None \<Rightarrow> (Inl (AwsError ''NotFound'' ''Not Found''), w')
           | Some c \<Rightarrow>
               (Inr \<lparr>Key = key, ETag = Some (s3_etag_of w c), Size = int (length c),
                     LastModified = Some (s3_mtime w (bucket, key))\<rparr>, w')))"

definition s3_PutObject :: "s3 \<Rightarrow> string \<Rightarrow> string \<Rightarrow> string \<Rightarrow> aws_error option \<times> s3" where
  "s3_PutObject w bucket key body =
     (let w' = s3_called w (PutObjectInput bucket key body) in
      case s3_faults w (PutObjectInput bucket key body) of
        Some e \<Rightarrow> (Some e, w')
      | None \<Rightarrow> (None, w'\<lparr>s3_objs := (s3_objs w')((bucket, key) \<mapsto> body)\<rparr>))"

definition s3_GetObject ::
  "s3 \<Rightarrow> string \<Rightarrow> string \<Rightarrow> ByteRange option \<Rightarrow> (aws_error + ObjectAttrs \<times> string) \<times> s3" where
  "s3_GetObject w bucket key br =
     (let w' = s3_called w (GetObjectInput bucket key br) in
      case s3_faults w (GetObjectInput bucket key br) of
        Some e \<Rightarrow> (Inl e, w')
      | None \<Rightarrow>
          (case s3_objs w (bucket, key) of
             None \<Rightarrow> (Inl (AwsError ''NoSuchKey'' ''The specified key does not exist.''), w')
           | Some c \<Rightarrow>
               (Inr (\<lparr>Key = key, ETag = None, Size = int (length (range_of br c)),
                      LastModified = Some (s3_mtime w (bucket, key))\<rparr>, range_of br c), w')))"

text \<open>
  A batch delete removes every key of the batch but those it reports a failure for; a
  key that does not exist is removed without a report. The response lists the failures
  in the order of the keys.
\<close>

fun delete_batch :: "s3 \<Rightarrow> string \<Rightarrow> string list \<Rightarrow> s3_Error list \<times> s3" where
  "delete_batch w bucket [] = ([], w)"
| "delete_batch w bucket (key # keys) =
     (case s3_key_faults w (bucket, key) of
        Some (AwsError code message) \<Rightarrow>
          (case delete_batch w bucket keys of
             (errs, w') \<Rightarrow> (\<lparr>ErrCode = code, ErrMessage = message, ErrKey = key\<rparr> # errs, w'))
      | None \<Rightarrow> delete_batch (w\<lparr>s3_objs := (s3_objs w)((bucket, key) := None)\<rparr>) bucket keys)"

definition s3_DeleteObjects ::
  "s3 \<Rightarrow> string \<Rightarrow> string list \<Rightarrow> bool \<Rightarrow> (aws_error + s3_Error list) \<times> s3" where
  "s3_DeleteObjects w bucket keys quiet =
     (let w' = s3_called w (DeleteObjectsInput bucket keys quiet) in
      case s3_faults w (DeleteObjectsInput bucket keys quiet) of
        Some e \<Rightarrow> (Inl e, w')
      | None \<Rightarrow> (case delete_batch w' bucket keys of (errs, w'') \<Rightarrow> (Inr errs, w'')))"

definition s3_ListObjectsV2 :: "s3 \<Rightarrow> string \<Rightarrow> string \<Rightarrow> (aws_error + s3_Object list list) \<times> s3" where
  "s3_ListObjectsV2 w bucket prefix =
     (let w' = s3_called w (ListObjectsV2Input bucket prefix) in
      case s3_faults w (ListObjectsV2Input bucket prefix) of
        Some e \<Rightarrow> (Inl e, w')
      | None \<Rightarrow> (Inr (s3_pages w bucket prefix), w'))"

definition s3_CreateMultipartUpload :: "s3 \<Rightarrow> string \<Rightarrow> string \<Rightarrow> (aws_error + string) \<times> s3" where
  "s3_CreateMultipartUpload w bucket key =
     (let w' = s3_called w (CreateMultipartUploadInput bucket key) in
      case s3_faults w (CreateMultipartUploadInput bucket key) of
        Some e \<Rightarrow> (Inl e, w')
      | None \<Rightarrow>
          (let id' = s3_upload_ids w (s3_issued w) in
           (Inr id', w'\<lparr>s3_uploads := (s3_uploads w')(id' \<mapsto> (bucket, key)),
                        s3_issued := Suc (s3_issued w')\<rparr>)))"

definition s3_UploadPart ::
  "s3 \<Rightarrow> string \<Rightarrow> string \<Rightarrow> string \<Rightarrow> int \<Rightarrow> string \<Rightarrow> (aws_error + string) \<times> s3" where
  "s3_UploadPart w bucket key id' number body =
     (let w' = s3_called w (UploadPartInput bucket key id' number body) in
      case s3_faults w (UploadPartInput bucket key id' number body) of
        Some e \<Rightarrow> (Inl e, w')
      | None \<Rightarrow>
          (if s3_uploads w id' = Some (bucket, key)
           then (Inr (s3_etag_of w body), w'\<lparr>s3_parts := (s3_parts w')((id', number) \<mapsto> body)\<rparr>)
           else (Inl (AwsError ''NoSuchUpload'' ''The specified upload does not exist.''), w')))"

definition s3_UploadPartCopy ::
  "s3 \<Rightarrow> string \<Rightarrow> string \<Rightarrow> string \<Rightarrow> string \<Rightarrow> int \<Rightarrow> ByteRange option
     \<Rightarrow> (aws_error + string) \<times> s3" where
  "s3_UploadPartCopy w bucket key id' src number br =
     (let w' = s3_called w (UploadPartCopyInput bucket key id' src number br) in
      case s3_faults w (UploadPartCopyInput bucket key id' src number br) of
        Some e \<Rightarrow> (Inl e, w')
      | None \<Rightarrow>
          (if s3_uploads w id' = Some (bucket, key)
           then
             (case s3_objs w (bucket, src) of
                None \<Rightarrow> (Inl (AwsError ''NoSuchKey'' ''The specified key does not exist.''), w')
              | Some c \<Rightarrow>
                  (Inr (s3_etag_of w (range_of br c)),
                   w'\<lparr>s3_parts := (s3_parts w')((id', number) \<mapsto> range_of br c)\<rparr>))
           else (Inl (AwsError ''NoSuchUpload'' ''The specified upload does not exist.''), w')))"

text \<open>
  Completion takes the parts in the order listed; a listed part must have been uploaded
  under its number with the entity tag given.
\<close>

definition part_ok :: "s3 \<Rightarrow> string \<Rightarrow> string \<times> int \<Rightarrow> bool" where
  "part_ok w id' p =
     (case s3_parts w (id', snd p) of None \<Rightarrow> False | Some c \<Rightarrow> s3_etag_of w c = fst p)"

definition part_bytes :: "s3 \<Rightarrow> string \<Rightarrow> string \<times> int \<Rightarrow> string" where
  "part_bytes w id' p = (case s3_parts w (id', snd p) of None \<Rightarrow> [] | Some c \<Rightarrow> c)"

definition close_upload :: "s3 \<Rightarrow> string \<Rightarrow> s3" where
  "close_upload w id' =
     w\<lparr>s3_uploads := (s3_uploads w)(id' := None),
       s3_parts := (\<lambda>(i, n). if i = id' then None else s3_parts w (i, n))\<rparr>"

definition s3_CompleteMultipartUpload ::
  "s3 \<Rightarrow> string \<Rightarrow> string \<Rightarrow> string \<Rightarrow> (string \<times> int) list \<Rightarrow> aws_error option \<times> s3" where
  "s3_CompleteMultipartUpload w bucket key id' parts =
     (let w' = s3_called w (CompleteMultipartUploadInput bucket key id' parts) in
      case s3_faults w (CompleteMultipartUploadInput bucket key id' parts) of
        Some e \<Rightarrow> (Some e, w')
      | None \<Rightarrow>
          (if s3_uploads w id' = Some (bucket, key)
           then
             (if parts \<noteq> [] \<and> list_all (part_ok w id') parts
              then (None, close_upload
                     (w'\<lparr>s3_objs := (s3_objs w')((bucket, key) \<mapsto> concat (map (part_bytes w id') parts))\<rparr>)
                     id')
              else (Some (AwsError ''InvalidPart'' ''One or more of the specified parts could not be found.''), w'))
           else (Some (AwsError ''NoSuchUpload'' ''The specified upload does not exist.''), w')))"

definition s3_AbortMultipartUpload :: "s3 \<Rightarrow> string \<Rightarrow> string \<Rightarrow> string \<Rightarrow> aws_error option \<times> s3" where
  "s3_AbortMultipartUpload w bucket key id' =
     (let w' = s3_called w (AbortMultipartUploadInput bucket key id') in
      case s3_faults w (AbortMultipartUploadInput bucket key id') of
        Some e \<Rightarrow> (Some e, w')
      | None \<Rightarrow>
          (if s3_uploads w id' = Some (bucket, key) then (None, close_upload w' id')
           else (Some (AwsError ''NoSuchUpload'' ''The specified upload does not exist.''), w')))"

subsection \<open>Helpers and constants of the package that are not among the sources\<close>

text \<open>
  Modelled from the spec: \<open>PageSize\<close> and \<open>MinUploadSize\<close> (not among the sources) are the
  provider's maximum number of objects in one request, "a single page (<=1000) of keys",
  and the backend's minimum multipart part size, 5MiB.
\<close>

definition PageSize :: nat where
  "PageSize = 1000"

definition MinUploadSize :: int where
  "MinUploadSize = 5 * 1024 * 1024"

text \<open>
  Modelled from the spec: \<open>isKeyNotFound\<close> and \<open>handleError\<close> of objaws (not among the
  sources). A "key not found" failure carries the code \<open>NoSuchKey\<close> or, from a request
  without a response body, \<open>NotFound\<close>. A native error becomes NotFound (a missing key
  or bucket), the unauthorized error, or a provider error that carries the cause. The
  key is nil where the request names none.
\<close>

definition isKeyNotFound :: "aws_error \<Rightarrow> bool" where
  "isKeyNotFound e = (case e of AwsError code message \<Rightarrow> code = ''NoSuchKey'' \<or> code = ''NotFound'')"

definition handle_aws :: "string \<Rightarrow> string option \<Rightarrow> aws_error \<Rightarrow> error" where
  "handle_aws bucket key e =
     (case e of
        AwsError code message \<Rightarrow>
          (if isKeyNotFound e then NotFoundError ''key'' (case key of None \<Rightarrow> [] | Some k \<Rightarrow> k)
           else if code = ''NoSuchBucket'' then NotFoundError ''bucket'' bucket
           else if code = ''AccessDenied'' then ErrUnauthorized
           else AWSError e))"

definition handleError_aws :: "string \<Rightarrow> string option \<Rightarrow> aws_error option \<Rightarrow> error option" where
  "handleError_aws bucket key err = map_option (handle_aws bucket key) err"

subsection \<open>The client\<close>

text \<open>
  The responses of the emulated service always carry the fields the client dereferences
  (\<open>*resp.ETag\<close>, \<open>*resp.ContentLength\<close>, \<open>*err.Code\<close>). A body is held in memory,
  so the \<open>io.Copy\<close> of \<open>downloadAndAppend\<close> has no error branch.
\<close>

definition GetObject_aws ::
  "s3 \<Rightarrow> string \<Rightarrow> string \<Rightarrow> ByteRange option \<Rightarrow> (error + ObjectAttrs \<times> string) \<times> s3" where
  "GetObject_aws w bucket key br =
     (case Valid br False of
        Some err \<Rightarrow> (Inl err, w)
      | None \<Rightarrow>
          (case s3_GetObject w bucket key br of
             (Inl e, w') \<Rightarrow> (Inl (handle_aws bucket (Some key) e), w')
           | (Inr object, w') \<Rightarrow> (Inr object, w')))"

definition GetObjectAttrs_aws :: "s3 \<Rightarrow> string \<Rightarrow> string \<Rightarrow> (error + ObjectAttrs) \<times> s3" where
  "GetObjectAttrs_aws w bucket key =
     (case s3_HeadObject w bucket key of
        (Inl e, w') \<Rightarrow> (Inl (handle_aws bucket (Some key) e), w')
      | (Inr attrs, w') \<Rightarrow> (Inr attrs, w'))"

definition PutObject_aws :: "s3 \<Rightarrow> string \<Rightarrow> string \<Rightarrow> string \<Rightarrow> error option \<times> s3" where
  "PutObject_aws w bucket key body =
     (case s3_PutObject w bucket key body of
        (err, w') \<Rightarrow> (handleError_aws bucket (Some key) err, w'))"

definition CreateMultipartUpload_aws :: "s3 \<Rightarrow> string \<Rightarrow> string \<Rightarrow> (error + string) \<times> s3" where
  "CreateMultipartUpload_aws w bucket key =
     (case s3_CreateMultipartUpload w bucket key of
        (Inl e, w') \<Rightarrow> (Inl (handle_aws bucket (Some key) e), w')
      | (Inr id', w') \<Rightarrow> (Inr id', w'))"

definition UploadPart_aws ::
  "s3 \<Rightarrow> string \<Rightarrow> string \<Rightarrow> string \<Rightarrow> int \<Rightarrow> string \<Rightarrow> (error + Part) \<times> s3" where
  "UploadPart_aws w bucket id' key number body =
     (case s3_UploadPart w bucket key id' number body of
        (Inl e, w') \<Rightarrow> (Inl (handle_aws bucket (Some key) e), w')
      | (Inr etag, w') \<Rightarrow> (Inr \<lparr>ID = etag, Number = number, PartSize = 0\<rparr>, w'))"

definition UploadPartCopy_aws ::
  "s3 \<Rightarrow> string \<Rightarrow> string \<Rightarrow> string \<Rightarrow> string \<Rightarrow> int \<Rightarrow> ByteRange option \<Rightarrow> (error + Part) \<times> s3" where
  "UploadPartCopy_aws w bucket id' dst src number br =
     (case Valid br True of
        Some err \<Rightarrow> (Inl err, w)
      | None \<Rightarrow>
          (case s3_UploadPartCopy w bucket dst id' src number br of
             (Inl e, w') \<Rightarrow> (Inl (handle_aws bucket (Some dst) e), w')
           | (Inr etag, w') \<Rightarrow> (Inr \<lparr>ID = etag, Number = number, PartSize = 0\<rparr>, w')))"

text \<open>\<open>CompleteMultipartUpload\<close> and \<open>AbortMultipartUpload\<close> return the native error as it is.\<close>

definition CompleteMultipartUpload_aws ::
  "s3 \<Rightarrow> string \<Rightarrow> string \<Rightarrow> string \<Rightarrow> Part list \<Rightarrow> error option \<times> s3" where
  "CompleteMultipartUpload_aws w bucket id' key parts =
     (let converted = map (\<lambda>part. (ID part, Number part)) parts in
      case s3_CompleteMultipartUpload w bucket key id' converted of
        (err, w') \<Rightarrow> (map_option AWSError err, w'))"

definition AbortMultipartUpload_aws :: "s3 \<Rightarrow> string \<Rightarrow> string \<Rightarrow> string \<Rightarrow> error option \<times> s3" where
  "AbortMultipartUpload_aws w bucket id' key =
     (case s3_AbortMultipartUpload w bucket key id' of
        (err, w') \<Rightarrow> (map_option AWSError err, w'))"

definition downloadAndAppend :: "s3 \<Rightarrow> string \<Rightarrow> ObjectAttrs \<Rightarrow> string \<Rightarrow> error option \<times> s3" where
  "downloadAndAppend w bucket attrs data =
     (case GetObject_aws w bucket (Key attrs) None of
        (Inl err, w1) \<Rightarrow> (Some (Wrapped ''failed to get object'' err), w1)
      | (Inr (object, body), w1) \<Rightarrow>
          (case PutObject_aws w1 bucket (Key attrs) (body @ data) of
             (Some err, w2) \<Rightarrow> (Some (Wrapped ''failed to upload updated object'' err), w2)
           | (None, w2) \<Rightarrow> (None, w2)))"

definition copyAndAppend :: "s3 \<Rightarrow> string \<Rightarrow> string \<Rightarrow> ObjectAttrs \<Rightarrow> string \<Rightarrow> error option \<times> s3" where
  "copyAndAppend w bucket id' attrs data =
     (case UploadPartCopy_aws w bucket id' (Key attrs) (Key attrs) 1
             (Some \<lparr>Start = 0, End = Size attrs - 1\<rparr>) of
        (Inl err, w1) \<Rightarrow> (Some (Wrapped ''failed to copy source object'' err), w1)
      | (Inr copied, w1) \<Rightarrow>
          (case UploadPart_aws w1 bucket id' (Key attrs) 2 data of
             (Inl err, w2) \<Rightarrow> (Some (Wrapped ''failed to upload part'' err), w2)
           | (Inr appended, w2) \<Rightarrow>
               (case CompleteMultipartUpload_aws w2 bucket id' (Key attrs) [copied, appended] of
                  (Some err, w3) \<Rightarrow> (Some (Wrapped ''failed to complete multipart upload'' err), w3)
                | (None, w3) \<Rightarrow> (None, w3))))"

definition createMPUThenCopyAndAppend ::
  "s3 \<Rightarrow> string \<Rightarrow> ObjectAttrs \<Rightarrow> string \<Rightarrow> error option \<times> s3" where
  "createMPUThenCopyAndAppend w bucket attrs data =
     (case CreateMultipartUpload_aws w bucket (Key attrs) of
        (Inl err, w1) \<Rightarrow> (Some (Wrapped ''failed to create multipart upload'' err), w1)
      | (Inr id', w1) \<Rightarrow>
          (case copyAndAppend w1 bucket id' attrs data of
             (None, w2) \<Rightarrow> (None, w2)
           | (Some err, w2) \<Rightarrow>
               (case AbortMultipartUpload_aws w2 bucket id' (Key attrs) of
                  (Some abort, w3) \<Rightarrow> (Some err, w3\<lparr>s3_logged := s3_logged w3 @ [(id', Key attrs)]\<rparr>)
                | (None, w3) \<Rightarrow> (Some err, w3))))"

definition AppendToObject_aws :: "s3 \<Rightarrow> string \<Rightarrow> string \<Rightarrow> string \<Rightarrow> error option \<times> s3" where
  "AppendToObject_aws w bucket key data =
     (case GetObjectAttrs_aws w bucket key of
        (Inl err, w1) \<Rightarrow>
          (if IsNotFoundError (Some err) then PutObject_aws w1 bucket key data
           else (Some (Wrapped ''failed to get object attributes'' err), w1))
      | (Inr attrs, w1) \<Rightarrow>
          (if IsNotFoundError None then PutObject_aws w1 bucket key data
           else if Size attrs < MinUploadSize then downloadAndAppend w1 bucket attrs data
           else createMPUThenCopyAndAppend w1 bucket attrs data))"

text \<open>
  \<open>deleteObjects\<close>: one batch, sent with \<open>Quiet\<close> set; the first reported failure that is
  not a "key not found" is the error.
\<close>

fun first_failure :: "string \<Rightarrow> s3_Error list \<Rightarrow> error option" where
  "first_failure bucket [] = None"
| "first_failure bucket (err # errs) =
     (let awsErr = AwsError (ErrCode err) (ErrMessage err) in
      if \<not> isKeyNotFound awsErr then Some (handle_aws bucket (Some (ErrKey err)) awsErr)
      else first_failure bucket errs)"

definition deleteObjects :: "s3 \<Rightarrow> string \<Rightarrow> string list \<Rightarrow> error option \<times> s3" where
  "deleteObjects w bucket keys =
     (case s3_DeleteObjects w bucket keys True of
        (Inl e, w') \<Rightarrow> (Some (handle_aws bucket None e), w')
      | (Inr errs, w') \<Rightarrow> (first_failure bucket errs, w'))"

text \<open>
  The loop of \<open>DeleteObjects\<close>, with its two counters; \<open>slice keys i j\<close> is \<open>keys[i:j]\<close>
  for \<open>i \<le> j \<le> len(keys)\<close>.
\<close>

definition slice :: "'a list \<Rightarrow> nat \<Rightarrow> nat \<Rightarrow> 'a list" where
  "slice xs i j = take (j - i) (drop i xs)"

function DeleteObjects_loop :: "s3 \<Rightarrow> string \<Rightarrow> string list \<Rightarrow> nat \<Rightarrow> nat \<Rightarrow> error option \<times> s3" where
  "DeleteObjects_loop w bucket keys start end' =
     (if start < length keys
      then
        (case deleteObjects w bucket (slice keys start (min end' (length keys))) of
           (Some err, w') \<Rightarrow> (Some err, w')
         | (None, w') \<Rightarrow> DeleteObjects_loop w' bucket keys (start + PageSize) (end' + PageSize))
      else (None, w))"
  by pat_completeness auto
termination
  by (relation "measure (\<lambda>(w, bucket, keys, start, end'). length keys - start)")
    (auto simp: PageSize_def)

declare DeleteObjects_loop.simps [simp del]

definition DeleteObjects_aws :: "s3 \<Rightarrow> string \<Rightarrow> string list \<Rightarrow> error option \<times> s3" where
  "DeleteObjects_aws w bucket keys = DeleteObjects_loop w bucket keys 0 PageSize"

text \<open>
  \<open>IterateObjects\<close>: \<open>ListObjectsV2Pages\<close> calls the callback on page after page until it
  returns false; the callback keeps the error of \<open>iterateObjects\<close> in \<open>err\<close>.
\<close>

fun iterateObjects ::
  "s3_Object list \<Rightarrow> regexp list option \<Rightarrow> regexp list option
     \<Rightarrow> (ObjectAttrs \<Rightarrow> 'u \<Rightarrow> error option \<times> 'u) \<Rightarrow> 'u \<Rightarrow> error option \<times> 'u" where
  "iterateObjects [] include exclude fn u = (None, u)"
| "iterateObjects (object # objects) include exclude fn u =
     (if ShouldIgnore (ObjKey object) include exclude
      then iterateObjects objects include exclude fn u
      else
        (case fn \<lparr>Key = ObjKey object, ETag = None, Size = ObjSize object,
                  LastModified = ObjLastModified object\<rparr> u of
           (Some err, u') \<Rightarrow> (Some err, u')
         | (None, u') \<Rightarrow> iterateObjects objects include exclude fn u'))"

fun iterate_pages ::
  "s3_Object list list \<Rightarrow> regexp list option \<Rightarrow> regexp list option
     \<Rightarrow> (ObjectAttrs \<Rightarrow> 'u \<Rightarrow> error option \<times> 'u) \<Rightarrow> 'u \<Rightarrow> error option \<times> 'u" where
  "iterate_pages [] include exclude fn u = (None, u)"
| "iterate_pages (page # pages) include exclude fn u =
     (case iterateObjects page include exclude fn u of
        (Some err, u') \<Rightarrow> (Some err, u')
      | (None, u') \<Rightarrow> iterate_pages pages include exclude fn u')"

definition IterateObjects_aws ::
  "s3 \<Rightarrow> string \<Rightarrow> string \<Rightarrow> regexp list option \<Rightarrow> regexp list option
     \<Rightarrow> (ObjectAttrs \<Rightarrow> 'u \<Rightarrow> error option \<times> 'u) \<Rightarrow> 'u \<Rightarrow> (error option \<times> 'u) \<times> s3" where
  "IterateObjects_aws w bucket prefix include exclude fn u =
     (if include \<noteq> None \<and> exclude \<noteq> None
      then ((Some ErrIncludeAndExcludeAreMutuallyExclusive, u), w)
      else
        (case s3_ListObjectsV2 w bucket prefix of
           (Inl e, w') \<Rightarrow> ((Some (handle_aws bucket None e), u), w')
         | (Inr pages, w') \<Rightarrow> (iterate_pages pages include exclude fn u, w')))"

subsection \<open>What \<open>DeleteObjects\<close> is compared with\<close>

text \<open>
  The batches of a key list, in the spec's words: the list cut into pieces of at most
  \<open>PageSize\<close> keys. A batch fails when its request is answered with a failure or its
  response reports, for one of its keys, a failure that is not a "key not found".
\<close>

function batches :: "'a list \<Rightarrow> 'a list list" where
  "batches keys = (if keys = [] then [] else take PageSize keys # batches (drop PageSize keys))"
  by pat_completeness auto
termination
  by (relation "measure length") (auto simp: PageSize_def)

declare batches.simps [simp del]

definition reports_failure :: "s3 \<Rightarrow> string \<Rightarrow> string \<Rightarrow> bool" where
  "reports_failure w bucket key =
     (case s3_key_faults w (bucket, key) of None \<Rightarrow> False | Some e \<Rightarrow> \<not> isKeyNotFound e)"

definition batch_fails :: "s3 \<Rightarrow> string \<Rightarrow> string list \<Rightarrow> bool" where
  "batch_fails w bucket batch =
     (case s3_faults w (DeleteObjectsInput bucket batch True) of
        Some e \<Rightarrow> True
      | None \<Rightarrow> list_ex (reports_failure w bucket) batch)"

text \<open>The batches sent: those before the first that fails, and that one.\<close>

fun sent :: "('a \<Rightarrow> bool) \<Rightarrow> 'a list \<Rightarrow> 'a list" where
  "sent fails [] = []"
| "sent fails (b # bs) = (if fails b then [b] else b # sent fails bs)"

text \<open>An S3 backend that holds the given objects and serves every request.\<close>

definition s3_emulated :: "(string \<times> string \<Rightarrow> string option) \<Rightarrow> s3" where
  "s3_emulated store =
     \<lparr>s3_objs = store, s3_uploads = (\<lambda>i. None), s3_parts = (\<lambda>p. None), s3_faults = (\<lambda>r. None),
      s3_key_faults = (\<lambda>k. None), s3_calls = [], s3_pages = (\<lambda>bucket prefix. []),
      s3_etag_of = (\<lambda>c. c), s3_mtime = (\<lambda>x. 0), s3_upload_ids = (\<lambda>n. replicate (Suc n) CHR ''i''),
      s3_issued = 0, s3_logged = []\<rparr>"

text \<open>
  Bucket \<open>b\<close> with the objects \<open>a\<close> and \<open>c\<close>. In \<open>mixed_keys\<close> a batch delete reports
  "key not found" for the key \<open>gone\<close>; in \<open>access_denied\<close> it reports a denied access
  for the key \<open>a\<close>.
\<close>

definition mixed_keys :: s3 where
  "mixed_keys =
     (s3_emulated (\<lambda>x. if x = (''b'', ''a'') \<or> x = (''b'', ''c'') then Some ''x'' else None))
       \<lparr>s3_key_faults := (\<lambda>k. if k = (''b'', ''gone'')
           then Some (AwsError ''NoSuchKey'' ''The specified key does not exist.'') else None)\<rparr>"

definition access_denied :: s3 where
  "access_denied =
     (s3_emulated (\<lambda>x. if x = (''b'', ''a'') \<or> x = (''b'', ''c'') then Some ''x'' else None))
       \<lparr>s3_key_faults := (\<lambda>k. if k = (''b'', ''a'')
           then Some (AwsError ''AccessDenied'' ''Access Denied'') else None)\<rparr>"

section \<open>The sleep duration stays within its bounds\<close>

lemma sdiv_mult_cancel: "m \<noteq> 0 \<Longrightarrow> (n * m) sdiv m = (n::int)"
proof -
  assume "m \<noteq> 0"
  then have "sgn m * sgn m = 1" by (simp add: sgn_if)
  then have "sgn n * sgn m * sgn m * \<bar>n\<bar> = sgn n * \<bar>n\<bar>" by (simp add: mult.assoc)
  also have "\<dots> = n" by (simp add: sgn_if)
  finally show ?thesis using \<open>m \<noteq> 0\<close>
    by (simp add: signed_divide_int_def abs_mult sgn_mult)
qed

text \<open>
  A product that left the 64-bit range is never given back by the truncating division:
  the wrapped value is at least \<open>2 ^ 64\<close> away from the product, the remainder less than
  the divisor.
\<close>

lemma trunc_quotient_detects_wrap:
  fixes n m :: int
  assumes m: "0 < m" "m < 2 ^ 63"
    and out: "n * m < - (2 ^ 63) \<or> 2 ^ 63 \<le> n * m"
  shows "signed_take_bit 63 (n * m) sdiv m \<noteq> n"
proof
  let ?w = "signed_take_bit (63::nat) (n * m)"
  assume q: "?w sdiv m = n"
  have split: "?w sdiv m * m + ?w smod m = ?w" by (rule sdiv_mult_smod_eq)
  have "?w smod m \<in> {- \<bar>m\<bar> + 1..\<bar>m\<bar> - 1}" using m by (intro smod_int_range) simp
  then have r: "- m < ?w smod m" "?w smod m < m" using m by auto
  from out show False
  proof
    assume lo: "n * m < - (2 ^ 63)"
    have "n * m + 2 ^ Suc 63 \<le> ?w" using lo by (rule signed_take_bit_int_greater_eq)
    with split q r m show False by simp
  next
    assume hi: "2 ^ 63 \<le> n * m"
    have "?w \<le> n * m - 2 ^ Suc 63" using hi by (rule signed_take_bit_int_less_eq)
    with split q r m show False by simp
  qed
qed

lemma sint_quotient:
  fixes a b :: "64 word"
  assumes "0 < sint b"
  shows "sint (word_of_int (sint a sdiv sint b) :: 64 word) = sint a sdiv sint b"
proof -
  have a: "- (2 ^ 63) \<le> sint a" "sint a < 2 ^ 63"
    using sint_ge [of a] sint_lt [of a] by simp_all
  have "\<bar>sint a\<bar> div sint b \<le> \<bar>sint a\<bar>"
    by (cases "sint a = 0") (simp_all add: int_div_le_self)
  moreover have "0 \<le> \<bar>sint a\<bar> div sint b" using assms
    by (simp add: pos_imp_zdiv_nonneg_iff)
  ultimately have "- (2 ^ 63) \<le> sint a sdiv sint b" "sint a sdiv sint b < 2 ^ 63"
    using a assms by (auto simp: signed_divide_int_def sgn_if)
  then show ?thesis by (simp add: sint_sbintrunc' signed_take_bit_int_eq_self)
qed

text \<open>The test \<open>n != duration / MinDelay\<close> is exact for a positive minimum delay.\<close>

lemma div64_detects:
  fixes n m :: "64 word"
  assumes m: "0 < sint m" and d: "div64 (n * m) m = Inr q"
  shows "(n \<noteq> q) = overflows n m"
proof -
  from m have m0: "m \<noteq> 0" by auto
  with d have q: "q = word_of_int (sint (n * m) sdiv sint m)" by (simp add: div64_def)
  have sq: "sint q = sint (n * m) sdiv sint m" unfolding q using m by (rule sint_quotient)
  have sm: "sint (n * m) = signed_take_bit 63 (sint n * sint m)" by (simp add: sint_word_mult)
  have mlt: "sint m < 2 ^ 63" using sint_lt [of m] by simp
  show ?thesis
  proof (cases "overflows n m")
    case True
    then have "signed_take_bit 63 (sint n * sint m) sdiv sint m \<noteq> sint n"
      using m mlt by (intro trunc_quotient_detects_wrap) (auto simp: overflows_def)
    then have "sint q \<noteq> sint n" using sq sm by simp
    then show ?thesis using True by auto
  next
    case False
    then have "signed_take_bit 63 (sint n * sint m) = sint n * sint m"
      by (intro signed_take_bit_int_eq_self) (auto simp: overflows_def)
    then have "sint q = sint n" using sq sm m by (simp add: sdiv_mult_cancel)
    then have "q = n" by (simp add: signed_word_eqI)
    then show ?thesis using False by simp
  qed
qed

text \<open>
  Claim C8. For every attempt number \<open>\<ge> 0\<close>, every algorithm (linear, exponential,
  Fibonacci, the last for any value the floating point computation converts to) and
  every configuration with \<open>0 < MinDelay \<le> MaxDelay\<close>, \<open>Retryer.duration\<close> returns
  (it does not panic) a duration within \<open>[MinDelay, MaxDelay]\<close>; when the product of
  the step count and \<open>MinDelay\<close> overflows 64 bits, it returns exactly \<open>MaxDelay\<close>.
\<close>

theorem duration_within_bounds:
  assumes "0 < sint (MinDelay r)" and "sint (MinDelay r) \<le> sint (MaxDelay r)"
    and "0 \<le> sint attempt"
  shows "\<exists>n d. steps fibonacci (Algorithm r) attempt = Inr n
           \<and> duration fibonacci r attempt = Inr d
           \<and> sint (MinDelay r) \<le> sint d \<and> sint d \<le> sint (MaxDelay r)
           \<and> (overflows n (MinDelay r) \<longrightarrow> d = MaxDelay r)"
proof -
  obtain n where n: "steps fibonacci (Algorithm r) attempt = Inr n"
    using assms(3) by (cases "Algorithm r") (simp_all add: steps_def)
  from assms(1) have m0: "MinDelay r \<noteq> 0" by auto
  then obtain q where q: "div64 (n * MinDelay r) (MinDelay r) = Inr q"
    by (simp add: div64_def)
  have det: "(n \<noteq> q) = overflows n (MinDelay r)" using assms(1) q by (rule div64_detects)
  show ?thesis
  proof (cases "n \<noteq> q")
    case True
    then have "duration fibonacci r attempt = Inr (MaxDelay r)"
      using n q by (simp add: duration_def)
    then show ?thesis using n assms(2) by simp
  next
    case False
    then have "duration fibonacci r attempt =
        Inr (maths_Min (MaxDelay r) (maths_Max (MinDelay r) (n * MinDelay r)))"
      using n q by (simp add: duration_def)
    moreover have "\<not> overflows n (MinDelay r)" using det False by simp
    ultimately show ?thesis using n assms(2)
      by (auto simp: maths_Min_def maths_Max_def)
  qed
qed

text \<open>
  The theorem at the exponential algorithm, attempt 62, delays between 50 and 1000:
  \<open>2 ^ 62 * 50\<close> overflows and the maximum delay is returned.
\<close>

theorem duration_within_bounds_witness:
  "duration (\<lambda>a. 0) \<lparr>Algorithm = AlgorithmExponential, MaxRetries = 3,
       MinDelay = 50, MaxDelay = 1000\<rparr> 62 = Inr 1000
   \<and> overflows (push_bit 62 1) 50"
  using duration_within_bounds [of "\<lparr>Algorithm = AlgorithmExponential, MaxRetries = 3,
       MinDelay = 50, MaxDelay = 1000\<rparr>" 62 "\<lambda>a. 0"]
  by (simp add: steps_def overflows_def)

section \<open>The multipart completion of objgcp\<close>

subsection \<open>Effects of the requests\<close>

lemma call_pair:
  "(case NewString w of (u, w1) \<Rightarrow> case partKey w1 u key of (i, w2) \<Rightarrow> F i w2)
     = F (ikey w key (drawn w)) (w\<lparr>drawn := Suc (Suc (drawn w))\<rparr>)"
  by (simp add: NewString_def partKey_def ikey_def)

lemma complete_unfold:
  "complete w bucket key parts =
     (if length parts \<le> MaxComposable then compose w bucket key parts
      else
        (case compose (w\<lparr>drawn := Suc (Suc (drawn w))\<rparr>) bucket (ikey w key (drawn w))
                (take MaxComposable parts) of
           (Some err, w3) \<Rightarrow> (Some err, cleanup w3 bucket [ikey w key (drawn w)])
         | (None, w3) \<Rightarrow>
             (case complete w3 bucket key (ikey w key (drawn w) # drop MaxComposable parts) of
                (r, w4) \<Rightarrow> (r, cleanup w4 bucket [ikey w key (drawn w)]))))"
  by (subst complete.simps) (simp add: call_pair)

lemma compose_None:
  assumes "compose w bucket key ps = (None, w')"
  shows "ps \<noteq> []" and "length ps \<le> MaxComposable"
    and "\<forall>p\<in>set ps. objs w (bucket, p) \<noteq> None"
    and "objs w' = (objs w)((bucket, key) \<mapsto> contents w bucket ps)"
    and "uuids w' = uuids w" and "drawn w' = drawn w" and "faults w' = faults w"
  using assms
  by (auto simp: compose_def svc_Compose_def called_def handleError_gcp_def Let_def list_ex_iff
      split: option.splits if_splits)

lemma compose_Some:
  assumes "compose w bucket key ps = (Some e, w')"
  shows "objs w' = objs w" and "uuids w' = uuids w" and "drawn w' = drawn w"
    and "faults w' = faults w"
  using assms
  by (auto simp: compose_def svc_Compose_def called_def handleError_gcp_def Let_def
      split: option.splits if_splits)

lemma del_fields:
  assumes "del w bucket key = (r, w')"
  shows "uuids w' = uuids w" and "drawn w' = drawn w" and "faults w' = faults w"
    and "x \<noteq> (bucket, key) \<Longrightarrow> objs w' x = objs w x"
    and "objs w' (bucket, key) = None \<or> objs w' (bucket, key) = objs w (bucket, key)"
    and "faults w (DeleteRequest bucket key) = None \<Longrightarrow> r = None \<and> objs w' (bucket, key) = None"
  using assms
  by (auto simp: del_def svc_Delete_def called_def Let_def split: option.splits if_splits)

lemma DeleteObjects_gcp_fields:
  "DeleteObjects_gcp w bucket keys = (r, w') \<Longrightarrow>
     uuids w' = uuids w \<and> drawn w' = drawn w \<and> faults w' = faults w"
proof (induction keys arbitrary: w)
  case Nil
  then show ?case by simp
next
  case (Cons k ks)
  obtain r1 w1 where d: "del w bucket k = (r1, w1)" by (cases "del w bucket k")
  show ?case
  proof (cases r1)
    case None
    with Cons.prems d have "DeleteObjects_gcp w1 bucket ks = (r, w')" by simp
    from Cons.IH [OF this] del_fields(1-3) [OF d] show ?thesis by simp
  next
    case (Some e)
    with Cons.prems d have "w' = w1" by simp
    with del_fields(1-3) [OF d] show ?thesis by simp
  qed
qed

lemma DeleteObjects_gcp_other:
  "DeleteObjects_gcp w bucket keys = (r, w') \<Longrightarrow> x \<notin> {bucket} \<times> set keys \<Longrightarrow>
     objs w' x = objs w x"
proof (induction keys arbitrary: w)
  case Nil
  then show ?case by simp
next
  case (Cons k ks)
  obtain r1 w1 where d: "del w bucket k = (r1, w1)" by (cases "del w bucket k")
  have x: "x \<noteq> (bucket, k)" "x \<notin> {bucket} \<times> set ks" using Cons.prems(2) by auto
  show ?case
  proof (cases r1)
    case None
    with Cons.prems d have "DeleteObjects_gcp w1 bucket ks = (r, w')" by simp
    from Cons.IH [OF this x(2)] del_fields(4) [OF d x(1)] show ?thesis by simp
  next
    case (Some e)
    with Cons.prems d have "w' = w1" by simp
    with del_fields(4) [OF d x(1)] show ?thesis by simp
  qed
qed

lemma DeleteObjects_gcp_weak:
  "DeleteObjects_gcp w bucket keys = (r, w') \<Longrightarrow> objs w' x = None \<or> objs w' x = objs w x"
proof (induction keys arbitrary: w)
  case Nil
  then show ?case by simp
next
  case (Cons k ks)
  obtain r1 w1 where d: "del w bucket k = (r1, w1)" by (cases "del w bucket k")
  have w1: "objs w1 x = None \<or> objs w1 x = objs w x"
    using del_fields(4,5) [OF d] by (cases "x = (bucket, k)") auto
  show ?case
  proof (cases r1)
    case None
    with Cons.prems d have "DeleteObjects_gcp w1 bucket ks = (r, w')" by simp
    from Cons.IH [OF this] w1 show ?thesis by auto
  next
    case (Some e)
    with Cons.prems d have "w' = w1" by simp
    with w1 show ?thesis by simp
  qed
qed

lemma DeleteObjects_gcp_served:
  "DeleteObjects_gcp w bucket keys = (r, w') \<Longrightarrow> deletes_served w \<Longrightarrow>
     r = None \<and> (\<forall>k\<in>set keys. objs w' (bucket, k) = None)"
proof (induction keys arbitrary: w)
  case Nil
  then show ?case by simp
next
  case (Cons k ks)
  obtain r1 w1 where d: "del w bucket k = (r1, w1)" by (cases "del w bucket k")
  have f: "faults w (DeleteRequest bucket k) = None"
    using Cons.prems(2) by (simp add: deletes_served_def)
  from del_fields(6) [OF d f] have r1: "r1 = None" and gone: "objs w1 (bucket, k) = None"
    by simp_all
  have s1: "deletes_served w1" using Cons.prems(2) del_fields(3) [OF d]
    by (simp add: deletes_served_def)
  from Cons.prems(1) d r1 have rest: "DeleteObjects_gcp w1 bucket ks = (r, w')" by simp
  from Cons.IH [OF rest s1] have "r = None" and ks: "\<forall>k\<in>set ks. objs w' (bucket, k) = None"
    by simp_all
  moreover have "objs w' (bucket, k) = None"
    using DeleteObjects_gcp_weak [OF rest, of "(bucket, k)"] gone by auto
  ultimately show ?case by simp
qed

lemma cleanup_eq:
  obtains r w' where "DeleteObjects_gcp w bucket keys = (r, w')"
    and "objs (cleanup w bucket keys) = objs w'"
    and "uuids (cleanup w bucket keys) = uuids w'"
    and "drawn (cleanup w bucket keys) = drawn w'"
    and "faults (cleanup w bucket keys) = faults w'"
proof (cases "DeleteObjects_gcp w bucket keys")
  case (Pair r w')
  then show ?thesis by (intro that [of r w']) (simp_all add: cleanup_def split: option.splits)
qed

lemma cleanup_fields [simp]:
  "uuids (cleanup w bucket keys) = uuids w"
  "drawn (cleanup w bucket keys) = drawn w"
  "faults (cleanup w bucket keys) = faults w"
proof -
  obtain r w' where d: "DeleteObjects_gcp w bucket keys = (r, w')"
    and e: "uuids (cleanup w bucket keys) = uuids w'" "drawn (cleanup w bucket keys) = drawn w'"
      "faults (cleanup w bucket keys) = faults w'"
    by (rule cleanup_eq)
  from DeleteObjects_gcp_fields [OF d] e
  show "uuids (cleanup w bucket keys) = uuids w" "drawn (cleanup w bucket keys) = drawn w"
    "faults (cleanup w bucket keys) = faults w" by simp_all
qed

lemma cleanup_other:
  assumes "x \<notin> {bucket} \<times> set keys"
  shows "objs (cleanup w bucket keys) x = objs w x"
proof -
  obtain r w' where d: "DeleteObjects_gcp w bucket keys = (r, w')"
    and e: "objs (cleanup w bucket keys) = objs w'"
    by (rule cleanup_eq)
  from DeleteObjects_gcp_other [OF d assms] e show ?thesis by simp
qed

lemma cleanup_weak:
  "objs (cleanup w bucket keys) x = None \<or> objs (cleanup w bucket keys) x = objs w x"
proof -
  obtain r w' where d: "DeleteObjects_gcp w bucket keys = (r, w')"
    and e: "objs (cleanup w bucket keys) = objs w'"
    by (rule cleanup_eq)
  from DeleteObjects_gcp_weak [OF d, of x] e show ?thesis by simp
qed

lemma cleanup_served:
  assumes "deletes_served w" and "k \<in> set keys"
  shows "objs (cleanup w bucket keys) (bucket, k) = None"
proof -
  obtain r w' where d: "DeleteObjects_gcp w bucket keys = (r, w')"
    and e: "objs (cleanup w bucket keys) = objs w'"
    by (rule cleanup_eq)
  from DeleteObjects_gcp_served [OF d assms(1)] assms(2) e show ?thesis by simp
qed


lemma contents_append:
  "contents w bucket (xs @ ys) = contents w bucket xs @ contents w bucket ys"
  by (simp add: contents_def)

lemma contents_cong:
  "(\<And>k. k \<in> set ks \<Longrightarrow> objs w' (bucket, k) = objs w (bucket, k)) \<Longrightarrow>
     contents w' bucket ks = contents w bucket ks"
  unfolding contents_def by (rule arg_cong [where f = concat]) (rule map_cong, simp_all)

lemma ikey_cong: "uuids w' = uuids w \<Longrightarrow> ikey w' key = ikey w key"
  by (rule ext) (simp add: ikey_def)

lemma fresh_iff:
  "fresh w key parts \<longleftrightarrow>
     (\<forall>k \<in> generated w key parts. k \<notin> set parts \<and> k \<noteq> key)
     \<and> inj_on (ikey w key) {drawn w ..< drawn w + 2 * length parts}"
  by (auto simp: fresh_def Let_def distinct_map list_all_iff generated_def)

lemma fresh_step:
  assumes f: "fresh w key parts" and len: "MaxComposable < length parts"
    and u: "uuids w3 = uuids w" and d: "drawn w3 = Suc (Suc (drawn w))"
  shows "ikey w key (drawn w) \<in> generated w key parts"
    and "ikey w key (drawn w) \<notin> set parts" and "ikey w key (drawn w) \<noteq> key"
    and "generated w3 key (ikey w key (drawn w) # drop MaxComposable parts)
           \<subseteq> generated w key parts - {ikey w key (drawn w)}"
    and "fresh w3 key (ikey w key (drawn w) # drop MaxComposable parts)"
proof -
  let ?i = "ikey w key (drawn w)"
  let ?R = "{drawn w ..< drawn w + 2 * length parts}"
  let ?R3 = "{drawn w3 ..< drawn w3 + 2 * length (?i # drop MaxComposable parts)}"
  from f have out: "\<forall>k \<in> generated w key parts. k \<notin> set parts \<and> k \<noteq> key"
    and inj: "inj_on (ikey w key) ?R"
    by (simp_all add: fresh_iff)
  have sub: "?R3 \<subseteq> ?R - {drawn w}" using len d by (auto simp: MaxComposable_def)
  have dR: "drawn w \<in> ?R" using len by (auto simp: MaxComposable_def)
  show gen: "?i \<in> generated w key parts" using dR by (auto simp: generated_def)
  with out show "?i \<notin> set parts" and "?i \<noteq> key" by auto
  have k3: "ikey w3 key = ikey w key" using u by (rule ikey_cong)
  show g3: "generated w3 key (?i # drop MaxComposable parts) \<subseteq> generated w key parts - {?i}"
  proof
    fix k assume "k \<in> generated w3 key (?i # drop MaxComposable parts)"
    then obtain n where n: "n \<in> ?R3" and k: "k = ikey w key n"
      unfolding generated_def k3 by blast
    from n sub have nR: "n \<in> ?R" and nd: "n \<noteq> drawn w" by auto
    from inj nR dR nd have "ikey w key n \<noteq> ?i" by (auto dest: inj_onD)
    with nR k show "k \<in> generated w key parts - {?i}" by (auto simp: generated_def)
  qed
  have "inj_on (ikey w3 key) ?R3" unfolding k3 using inj sub by (auto intro: inj_on_subset)
  moreover have "\<forall>k \<in> generated w3 key (?i # drop MaxComposable parts).
      k \<notin> set (?i # drop MaxComposable parts) \<and> k \<noteq> key"
    using g3 out by (auto dest: in_set_dropD)
  ultimately show "fresh w3 key (?i # drop MaxComposable parts)"
    by (simp only: fresh_iff)
qed


lemma complete_effect:
  assumes "fresh w key parts" and "complete w bucket key parts = (r, w')"
  shows "uuids w' = uuids w \<and> faults w' = faults w
    \<and> (\<forall>x. fst x \<noteq> bucket \<longrightarrow> objs w' x = objs w x)
    \<and> (\<forall>k. k \<noteq> key \<longrightarrow> k \<notin> generated w key parts \<longrightarrow>
          objs w' (bucket, k) = objs w (bucket, k))
    \<and> (r = None \<longrightarrow> parts \<noteq> [] \<and> (\<forall>p\<in>set parts. objs w (bucket, p) \<noteq> None)
          \<and> objs w' (bucket, key) = Some (contents w bucket parts))
    \<and> (r \<noteq> None \<longrightarrow> objs w' (bucket, key) = objs w (bucket, key))
    \<and> (deletes_served w \<longrightarrow>
          (\<forall>k. k \<noteq> key \<longrightarrow>
             objs w' (bucket, k) = None \<or> objs w' (bucket, k) = objs w (bucket, k)))"
  using assms
proof (induction "length parts" arbitrary: w parts r w' rule: less_induct)
  case less
  note f = less.prems(1) and c = less.prems(2)
  show ?case
  proof (cases "length parts \<le> MaxComposable")
    case True
    with c have cm: "compose w bucket key parts = (r, w')" by (simp add: complete_unfold)
    show ?thesis
    proof (cases r)
      case None
      from compose_None [OF cm [unfolded None]] None show ?thesis by auto
    next
      case (Some e)
      from compose_Some [OF cm [unfolded Some]] Some show ?thesis by auto
    qed
  next
    case False
    then have len: "MaxComposable < length parts" by simp
    let ?i = "ikey w key (drawn w)"
    let ?w2 = "w\<lparr>drawn := Suc (Suc (drawn w))\<rparr>"
    let ?rest = "?i # drop MaxComposable parts"
    obtain e3 w3 where c3: "compose ?w2 bucket ?i (take MaxComposable parts) = (e3, w3)"
      by (cases "compose ?w2 bucket ?i (take MaxComposable parts)")
    show ?thesis
    proof (cases e3)
      case (Some e)
      from compose_Some [OF c3 [unfolded Some]]
      have o3: "objs w3 = objs w" and u3: "uuids w3 = uuids w" and f3: "faults w3 = faults w"
        and d3: "drawn w3 = Suc (Suc (drawn w))"
        by simp_all
      from c False c3 Some have r: "r = Some e" and w': "w' = cleanup w3 bucket [?i]"
        by (simp_all add: complete_unfold)
      note fs = fresh_step [OF f len u3 d3]
      have other: "objs w' x = objs w x" if "x \<noteq> (bucket, ?i)" for x
        unfolding w' using that o3 by (simp add: cleanup_other)
      have weak: "objs w' x = None \<or> objs w' x = objs w x" for x
        unfolding w' using cleanup_weak [of w3 bucket "[?i]" x] o3 by simp
      have fields: "uuids w' = uuids w \<and> faults w' = faults w"
        unfolding w' using u3 f3 by simp
      have buckets: "\<forall>x. fst x \<noteq> bucket \<longrightarrow> objs w' x = objs w x"
        using other by auto
      have frame: "\<forall>k. k \<noteq> key \<longrightarrow> k \<notin> generated w key parts \<longrightarrow>
          objs w' (bucket, k) = objs w (bucket, k)"
      proof (intro allI impI)
        fix k assume "k \<notin> generated w key parts"
        with fs(1) have "k \<noteq> ?i" by auto
        then show "objs w' (bucket, k) = objs w (bucket, k)" by (intro other) simp
      qed
      have failure: "objs w' (bucket, key) = objs w (bucket, key)"
        using fs(3) by (intro other) simp
      from fields buckets frame failure weak r show ?thesis by blast
    next
      case None
      from compose_None [OF c3 [unfolded None]]
      have ex32: "\<forall>p\<in>set (take MaxComposable parts). objs w (bucket, p) \<noteq> None"
        and o3: "objs w3 = (objs w)((bucket, ?i) \<mapsto> contents ?w2 bucket (take MaxComposable parts))"
        and u3: "uuids w3 = uuids w" and f3: "faults w3 = faults w"
        and d3: "drawn w3 = Suc (Suc (drawn w))"
        by simp_all
      have c2: "contents ?w2 bucket ks = contents w bucket ks" for ks
        by (simp add: contents_def)
      note fs = fresh_step [OF f len u3 d3]
      obtain r4 w4 where c4: "complete w3 bucket key ?rest = (r4, w4)"
        by (cases "complete w3 bucket key ?rest")
      from c False c3 None c4 have r: "r = r4" and w': "w' = cleanup w4 bucket [?i]"
        by (simp_all add: complete_unfold)
      have shorter: "length ?rest < length parts" using len by (auto simp: MaxComposable_def)
      from less.hyps [OF shorter fs(5) c4]
      have u4: "uuids w4 = uuids w3" and f4: "faults w4 = faults w3"
        and b4: "\<And>x. fst x \<noteq> bucket \<Longrightarrow> objs w4 x = objs w3 x"
        and fr4: "\<And>k. k \<noteq> key \<Longrightarrow> k \<notin> generated w3 key ?rest \<Longrightarrow>
                    objs w4 (bucket, k) = objs w3 (bucket, k)"
        and ok4: "r4 = None \<Longrightarrow> (\<forall>p\<in>set ?rest. objs w3 (bucket, p) \<noteq> None)
                    \<and> objs w4 (bucket, key) = Some (contents w3 bucket ?rest)"
        and ko4: "r4 \<noteq> None \<Longrightarrow> objs w4 (bucket, key) = objs w3 (bucket, key)"
        and sv4: "deletes_served w3 \<Longrightarrow> (\<And>k. k \<noteq> key \<Longrightarrow>
                    objs w4 (bucket, k) = None \<or> objs w4 (bucket, k) = objs w3 (bucket, k))"
        by blast+
      have o3': "objs w3 x = objs w x" if "x \<noteq> (bucket, ?i)" for x
        using that by (simp add: o3)
      have other: "objs w' x = objs w4 x" if "x \<noteq> (bucket, ?i)" for x
        unfolding w' using that by (simp add: cleanup_other)
      have fields: "uuids w' = uuids w \<and> faults w' = faults w"
        unfolding w' using u4 f4 u3 f3 by simp
      have buckets: "\<forall>x. fst x \<noteq> bucket \<longrightarrow> objs w' x = objs w x"
        using other b4 o3' by auto
      have frame: "\<forall>k. k \<noteq> key \<longrightarrow> k \<notin> generated w key parts \<longrightarrow>
          objs w' (bucket, k) = objs w (bucket, k)"
      proof (intro allI impI)
        fix k assume k: "k \<noteq> key" "k \<notin> generated w key parts"
        with fs(1,4) have "k \<noteq> ?i" "k \<notin> generated w3 key ?rest" by auto
        with k other fr4 o3' show "objs w' (bucket, k) = objs w (bucket, k)" by simp
      qed
      have success: "parts \<noteq> [] \<and> (\<forall>p\<in>set parts. objs w (bucket, p) \<noteq> None)
          \<and> objs w' (bucket, key) = Some (contents w bucket parts)" if "r = None"
      proof -
        from that r ok4 have ex: "\<forall>p\<in>set ?rest. objs w3 (bucket, p) \<noteq> None"
          and k4: "objs w4 (bucket, key) = Some (contents w3 bucket ?rest)" by simp_all
        have dr: "objs w3 (bucket, p) = objs w (bucket, p)" if "p \<in> set (drop MaxComposable parts)" for p
          using that fs(2) by (intro o3') (auto dest: in_set_dropD)
        have "set parts = set (take MaxComposable parts) \<union> set (drop MaxComposable parts)"
          by (metis append_take_drop_id set_append)
        with ex32 ex dr have all: "\<forall>p\<in>set parts. objs w (bucket, p) \<noteq> None" by auto
        have "contents w3 bucket ?rest
            = contents w bucket (take MaxComposable parts) @ contents w3 bucket (drop MaxComposable parts)"
          by (simp add: contents_def o3 c2 [unfolded contents_def])
        also have "contents w3 bucket (drop MaxComposable parts)
            = contents w bucket (drop MaxComposable parts)"
          by (rule contents_cong) (rule dr)
        finally have "contents w3 bucket ?rest = contents w bucket parts"
          by (simp flip: contents_append)
        with k4 other [of "(bucket, key)"] fs(3) all len show ?thesis by auto
      qed
      have failure: "objs w' (bucket, key) = objs w (bucket, key)" if "r \<noteq> None"
        using that r ko4 other [of "(bucket, key)"] o3' [of "(bucket, key)"] fs(3) by simp
      have served: "objs w' (bucket, k) = None \<or> objs w' (bucket, k) = objs w (bucket, k)"
        if s: "deletes_served w" and k: "k \<noteq> key" for k
      proof (cases "k = ?i")
        case True
        have "deletes_served w4" using s f4 f3 by (simp add: deletes_served_def)
        then show ?thesis unfolding w' True by (simp add: cleanup_served)
      next
        case False
        have "deletes_served w3" using s f3 by (simp add: deletes_served_def)
        from sv4 [OF this k] other [of "(bucket, k)"] o3' [of "(bucket, k)"] False
        show ?thesis by auto
      qed
      from fields buckets frame success failure served show ?thesis by blast
    qed
  qed
qed

subsection \<open>The keys of the emulated backend are fresh\<close>

lemma ikey_emulated:
  "ikey (emulated store) key n
     = key @ ''-mpu-'' @ replicate (Suc n) CHR ''u'' @ ''/'' @ replicate (Suc (Suc n)) CHR ''u''"
  by (simp add: ikey_def emulated_def partPrefix_def)

lemma fresh_emulated:
  assumes "list_all (\<lambda>p. p = [] \<or> last p \<noteq> CHR ''u'') parts"
  shows "fresh (emulated store) key parts"
proof -
  have len: "length (ikey (emulated store) key n) = length key + 2 * n + 9" for n
    by (simp add: ikey_emulated)
  have lst: "last (ikey (emulated store) key n) = CHR ''u''" for n
    by (simp add: ikey_emulated)
  have ne: "ikey (emulated store) key n \<noteq> []" for n
    by (simp add: ikey_emulated)
  have "inj_on (ikey (emulated store) key) A" for A
  proof (rule inj_onI)
    fix n m assume "ikey (emulated store) key n = ikey (emulated store) key m"
    then have "length (ikey (emulated store) key n) = length (ikey (emulated store) key m)"
      by simp
    then show "n = m" by (simp add: len)
  qed
  moreover have "k \<notin> set parts \<and> k \<noteq> key" if "k \<in> generated (emulated store) key parts" for k
  proof -
    from that obtain n where k: "k = ikey (emulated store) key n" by (auto simp: generated_def)
    have "k \<noteq> key" using len [of n] k by auto
    moreover have "k \<notin> set parts"
    proof
      assume "k \<in> set parts"
      with assms have "k = [] \<or> last k \<noteq> CHR ''u''" by (auto simp: list_all_iff)
      with k lst ne show False by auto
    qed
    ultimately show ?thesis by simp
  qed
  ultimately show ?thesis by (simp add: fresh_iff)
qed

lemma ids_thirty_three: "map ID thirty_three = map pid [0..<33]"
  by (simp add: thirty_three_def comp_def)

lemma fresh_thirty_three: "fresh (emulated store) key (map ID thirty_three)"
  by (rule fresh_emulated) (simp add: ids_thirty_three list_all_iff pid_def)

subsection \<open>Termination of \<open>complete\<close>\<close>

lemma complete_within_enough:
  "length parts < fuel \<Longrightarrow>
     complete_within fuel w bucket key parts = Some (complete w bucket key parts)"
proof (induction fuel arbitrary: w parts)
  case 0
  then show ?case by simp
next
  case (Suc fuel)
  show ?case
  proof (cases "length parts \<le> MaxComposable")
    case True
    then show ?thesis by (simp add: complete.simps)
  next
    case False
    then have "length (i # drop MaxComposable parts) < fuel" for i :: string
      using Suc.prems by (simp add: MaxComposable_def)
    then have "complete_within fuel w' bucket key (i # drop MaxComposable parts)
        = Some (complete w' bucket key (i # drop MaxComposable parts))" for w' i
      by (rule Suc.IH)
    then show ?thesis using False
      by (simp add: complete.simps [of w] split: prod.splits option.splits)
  qed
qed

text \<open>
  Claim C7. \<open>complete\<close> terminates on every list of part identifiers: where more than
  \<open>MaxComposable\<close> identifiers remain, the list of the recursive call (the intermediate
  key and the identifiers past the first \<open>MaxComposable\<close>) is strictly shorter, and the
  recursion, bounded to a depth of one more than the length of the list, returns what
  \<open>complete\<close> returns.
\<close>

theorem complete_terminates:
  "(MaxComposable < length parts \<longrightarrow>
      length (intermediate # drop MaxComposable parts) < length parts)
   \<and> complete_within (Suc (length parts)) w bucket key parts
       = Some (complete w bucket key parts)"
proof
  show "MaxComposable < length parts \<longrightarrow>
      length (intermediate # drop MaxComposable parts) < length parts"
    by (auto simp: MaxComposable_def)
  show "complete_within (Suc (length parts)) w bucket key parts
       = Some (complete w bucket key parts)"
    by (rule complete_within_enough) simp
qed

text \<open>The theorem at the thirty-three parts of the example.\<close>

theorem complete_terminates_witness:
  "MaxComposable < length (map ID thirty_three)
   \<and> length (''i'' # drop MaxComposable (map ID thirty_three)) < length (map ID thirty_three)
   \<and> complete_within (Suc (length (map ID thirty_three))) all_parts_stored ''b'' ''k'' (map ID thirty_three)
       = Some (complete all_parts_stored ''b'' ''k'' (map ID thirty_three))"
  using complete_terminates [of "map ID thirty_three" "''i''" all_parts_stored "''b''" "''k''"]
  by (simp add: MaxComposable_def thirty_three_def del: complete_within.simps)

subsection \<open>A destination key listed twice\<close>

text \<open>
  Claim C1 says that a successful \<open>CompleteMultipartUpload\<close> leaves the final object at
  the destination key. Here the parts are the destination object itself, listed twice:
  the composition succeeds, \<open>remove1\<close> takes one occurrence of the key out of the keys
  to clean up, and the cleanup deletes the object just composed.
\<close>

theorem duplicate_key_deletes_destination:
  "(case CompleteMultipartUpload_gcp (one_object ''ab'') ''b'' ''s'' ''k''
           [\<lparr>ID = ''k'', Number = 1, PartSize = 2\<rparr>, \<lparr>ID = ''k'', Number = 2, PartSize = 2\<rparr>] of
      (r, w') \<Rightarrow> r = None \<and> objs w' (''b'', ''k'') = None)"
  by code_simp

subsection \<open>What the completion deletes\<close>

text \<open>
  Claim C3, as amended. \<open>CompleteMultipartUpload\<close> returns what \<open>complete\<close> returns: a
  failure of a deletion is logged by \<open>cleanup\<close> and never returned. Where the generated
  keys are fresh: after a completion that fails, every object other than the generated
  intermediate keys is as before, the sources of the merge steps that succeeded included,
  and on a backend that serves deletes no object is new; after a completion that
  succeeds, every part existed, the destination holds the concatenation of the parts in
  the order given when the key is not listed twice, and on a backend that serves deletes
  every part identifier other than the destination key is gone and no other object is
  new or changed.
\<close>

theorem CompleteMultipartUpload_gcp_effect:
  "fst (CompleteMultipartUpload_gcp w bucket id' key parts) = fst (complete w bucket key (map ID parts))
   \<and> (\<forall>keys err w1. DeleteObjects_gcp w bucket keys = (Some err, w1) \<longrightarrow>
          cleanup w bucket keys = w1\<lparr>logged := logged w1 @ [(keys, err)]\<rparr>)
   \<and> (fresh w key (map ID parts) \<longrightarrow>
        (case CompleteMultipartUpload_gcp w bucket id' key parts of
           (Some err, w') \<Rightarrow>
             (\<forall>k. k \<notin> generated w key (map ID parts) \<longrightarrow> objs w' (bucket, k) = objs w (bucket, k))
             \<and> (deletes_served w \<longrightarrow>
                  (\<forall>k. objs w' (bucket, k) = None \<or> objs w' (bucket, k) = objs w (bucket, k)))
         | (None, w') \<Rightarrow>
             (\<forall>p \<in> set parts. objs w (bucket, ID p) \<noteq> None)
             \<and> (key \<notin> set (remove1 key (map ID parts)) \<longrightarrow>
                  objs w' (bucket, key) = Some (contents w bucket (map ID parts)))
             \<and> (deletes_served w \<longrightarrow>
                  (\<forall>k. k \<noteq> key \<longrightarrow>
                     (k \<in> set (map ID parts) \<longrightarrow> objs w' (bucket, k) = None)
                     \<and> (objs w' (bucket, k) = None \<or> objs w' (bucket, k) = objs w (bucket, k))))))"
proof (intro conjI impI allI)
  show "fst (CompleteMultipartUpload_gcp w bucket id' key parts) = fst (complete w bucket key (map ID parts))"
    by (simp add: CompleteMultipartUpload_gcp_def Let_def split: prod.splits option.splits)
next
  fix keys err w1
  assume "DeleteObjects_gcp w bucket keys = (Some err, w1)"
  then show "cleanup w bucket keys = w1\<lparr>logged := logged w1 @ [(keys, err)]\<rparr>"
    by (simp add: cleanup_def)
next
  assume f: "fresh w key (map ID parts)"
  let ?ids = "map ID parts"
  obtain r w1 where c: "complete w bucket key ?ids = (r, w1)"
    by (cases "complete w bucket key ?ids")
  note eff = complete_effect [OF f c]
  show "case CompleteMultipartUpload_gcp w bucket id' key parts of
           (Some err, w') \<Rightarrow>
             (\<forall>k. k \<notin> generated w key ?ids \<longrightarrow> objs w' (bucket, k) = objs w (bucket, k))
             \<and> (deletes_served w \<longrightarrow>
                  (\<forall>k. objs w' (bucket, k) = None \<or> objs w' (bucket, k) = objs w (bucket, k)))
         | (None, w') \<Rightarrow>
             (\<forall>p \<in> set parts. objs w (bucket, ID p) \<noteq> None)
             \<and> (key \<notin> set (remove1 key ?ids) \<longrightarrow>
                  objs w' (bucket, key) = Some (contents w bucket ?ids))
             \<and> (deletes_served w \<longrightarrow>
                  (\<forall>k. k \<noteq> key \<longrightarrow>
                     (k \<in> set ?ids \<longrightarrow> objs w' (bucket, k) = None)
                     \<and> (objs w' (bucket, k) = None \<or> objs w' (bucket, k) = objs w (bucket, k))))"
  proof (cases r)
    case (Some e)
    then have cm: "CompleteMultipartUpload_gcp w bucket id' key parts = (Some e, w1)"
      using c by (simp add: CompleteMultipartUpload_gcp_def)
    have "objs w1 (bucket, k) = objs w (bucket, k)" if "k \<notin> generated w key ?ids" for k
      using eff that Some by (cases "k = key") auto
    moreover have "objs w1 (bucket, k) = None \<or> objs w1 (bucket, k) = objs w (bucket, k)"
      if "deletes_served w" for k
      using eff that Some by (cases "k = key") auto
    ultimately show ?thesis unfolding cm by simp
  next
    case None
    let ?w' = "cleanup w1 bucket (remove1 key ?ids)"
    from None have cm: "CompleteMultipartUpload_gcp w bucket id' key parts = (None, ?w')"
      using c by (simp add: CompleteMultipartUpload_gcp_def)
    from eff None have ex: "\<forall>p\<in>set ?ids. objs w (bucket, p) \<noteq> None"
      and k1: "objs w1 (bucket, key) = Some (contents w bucket ?ids)"
      and f1: "faults w1 = faults w" by simp_all
    have a: "\<forall>p \<in> set parts. objs w (bucket, ID p) \<noteq> None" using ex by simp
    have b: "objs ?w' (bucket, key) = Some (contents w bucket ?ids)"
      if "key \<notin> set (remove1 key ?ids)"
      using that k1 by (simp add: cleanup_other)
    have d: "(k \<in> set ?ids \<longrightarrow> objs ?w' (bucket, k) = None)
        \<and> (objs ?w' (bucket, k) = None \<or> objs ?w' (bucket, k) = objs w (bucket, k))"
      if s: "deletes_served w" and k: "k \<noteq> key" for k
    proof
      have s1: "deletes_served w1" using s f1 by (simp add: deletes_served_def)
      show "k \<in> set ?ids \<longrightarrow> objs ?w' (bucket, k) = None"
      proof
        assume "k \<in> set ?ids"
        with k have "k \<in> set (remove1 key ?ids)" by simp
        with s1 show "objs ?w' (bucket, k) = None" by (rule cleanup_served)
      qed
      from eff s k have "objs w1 (bucket, k) = None \<or> objs w1 (bucket, k) = objs w (bucket, k)"
        by simp
      with cleanup_weak [of w1 bucket "remove1 key ?ids" "(bucket, k)"]
      show "objs ?w' (bucket, k) = None \<or> objs ?w' (bucket, k) = objs w (bucket, k)" by auto
    qed
    from a b d show ?thesis unfolding cm by simp
  qed
qed

text \<open>
  The theorem at thirty-three stored parts: the destination holds their concatenation and
  the parts are gone.
\<close>

theorem CompleteMultipartUpload_gcp_effect_witness:
  "fresh all_parts_stored ''k'' (map ID thirty_three) \<and> deletes_served all_parts_stored
   \<and> (case CompleteMultipartUpload_gcp all_parts_stored ''b'' ''s'' ''k'' thirty_three of
        (r, w') \<Rightarrow> r = None \<and> objs w' (''b'', ''k'') = Some (concat (map pid [0..<33]))
          \<and> objs w' (''b'', pid 0) = None \<and> objs w' (''b'', pid 32) = None)"
proof -
  let ?c = "CompleteMultipartUpload_gcp all_parts_stored ''b'' ''s'' ''k'' thirty_three"
  have f: "fresh all_parts_stored ''k'' (map ID thirty_three)"
    unfolding all_parts_stored_def by (rule fresh_thirty_three)
  have s: "deletes_served all_parts_stored"
    by (simp add: deletes_served_def all_parts_stored_def emulated_def)
  have "fst ?c = None" by code_simp
  then obtain w' where c: "?c = (None, w')" by (cases ?c) auto
  have k: "''k'' \<notin> set (remove1 ''k'' (map ID thirty_three))" by code_simp
  have ct: "contents all_parts_stored ''b'' (map ID thirty_three) = concat (map pid [0..<33])"
    by code_simp
  have m: "pid 0 \<in> set (map ID thirty_three)" "pid 32 \<in> set (map ID thirty_three)"
    "pid 0 \<noteq> ''k''" "pid 32 \<noteq> ''k''"
    by code_simp+
  from CompleteMultipartUpload_gcp_effect [of all_parts_stored "''b''" "''s''" "''k''" thirty_three]
    f s k m
  have "objs w' (''b'', ''k'') = Some (contents all_parts_stored ''b'' (map ID thirty_three))"
    and "objs w' (''b'', pid 0) = None" and "objs w' (''b'', pid 32) = None"
    unfolding c by simp_all
  with f s ct show ?thesis unfolding c by simp
qed

text \<open>
  Claim C3 as stated fails: with thirty-three parts of which the last is missing, the
  first merge step (thirty-two sources into an intermediate key) succeeds, the second
  fails, and the sources of the first step are still there when the call returns.
\<close>

theorem sources_kept_after_merge_counterexample:
  "fst (compose (last_part_missing\<lparr>drawn := 2\<rparr>) ''b'' (ikey last_part_missing ''k'' 0)
          (take MaxComposable (map ID thirty_three))) = None
   \<and> (case CompleteMultipartUpload_gcp last_part_missing ''b'' ''s'' ''k'' thirty_three of
        (r, w') \<Rightarrow> r = Some (NotFoundError ''key'' ''k'') \<and> objs w' (''b'', pid 0) = Some (pid 0))"
  by code_simp

subsection \<open>\<open>AppendToObject\<close> when the attributes cannot be fetched\<close>

text \<open>
  Claim C9 says that \<open>AppendToObject\<close> returns the wrapped error when \<open>GetObjectAttrs\<close>
  fails with an error that is not NotFound. In every state, for every bucket, key and
  data, when the service answers the attribute request with HTTP 500 the guard reads
  \<open>attrs.Size\<close> of a nil \<open>attrs\<close>: the call panics after the one request.
\<close>

theorem AppendToObject_gcp_panics:
  "AppendToObject_gcp
     (w\<lparr>faults := (faults w)(AttrsRequest bucket key := Some (GoogleAPIError 500))\<rparr>) bucket key data
   = (Panics NilPointerDereference,
      called (w\<lparr>faults := (faults w)(AttrsRequest bucket key := Some (GoogleAPIError 500))\<rparr>)
        (AttrsRequest bucket key))"
  by (simp add: AppendToObject_gcp_def GetObjectAttrs_gcp_def svc_Attrs_def handle_gcp_def
      IsNotFoundError_def Let_def)

subsection \<open>\<open>UploadPartCopy\<close> copies whole objects only\<close>

text \<open>
  Claim C4, as amended. For a range that passes validation and a source object whose
  attributes are fetched: a range that is given and is not \<open>0\<close> to \<open>size - 1\<close> is
  answered with the unsupported-operation error after the attribute request alone (no
  key is generated, no object created); with no range or the range of the whole object,
  and the copy request served, the call returns a part whose identifier is the key
  generated under the session prefix, and the store holds the source's content there.
\<close>

theorem UploadPartCopy_gcp_whole_object_only:
  assumes "Valid br False = None" and "faults w (AttrsRequest bucket src) = None"
    and "objs w (bucket, src) = Some c"
  shows "((case br of None \<Rightarrow> False | Some r \<Rightarrow> \<not> (Start r = 0 \<and> End r = int (length c) - 1)) \<longrightarrow>
            UploadPartCopy_gcp w bucket id' dst src number br
              = (Inl ErrUnsupportedOperation, called w (AttrsRequest bucket src)))
       \<and> ((case br of None \<Rightarrow> True | Some r \<Rightarrow> Start r = 0 \<and> End r = int (length c) - 1) \<longrightarrow>
            faults w (CopyRequest bucket (partPrefix id' dst @ ''/'' @ uuids w (drawn w)) src) = None \<longrightarrow>
            (\<exists>w'. UploadPartCopy_gcp w bucket id' dst src number br
                     = (Inr \<lparr>ID = partPrefix id' dst @ ''/'' @ uuids w (drawn w), Number = 0,
                             PartSize = int (length c)\<rparr>, w')
                 \<and> objs w' = (objs w)((bucket, partPrefix id' dst @ ''/'' @ uuids w (drawn w)) \<mapsto> c)))"
  using assms
  by (cases br)
    (simp_all add: UploadPartCopy_gcp_def GetObjectAttrs_gcp_def svc_Attrs_def svc_Copy_def
      partKey_def NewString_def called_def Let_def)

text \<open>The theorem at an object of ten bytes: the range 1 to 5, and the range 0 to 9.\<close>

theorem UploadPartCopy_gcp_whole_object_only_witness:
  "UploadPartCopy_gcp (one_object ''0123456789'') ''b'' ''s'' ''d'' ''k'' 1 (Some \<lparr>Start = 1, End = 5\<rparr>)
     = (Inl ErrUnsupportedOperation, called (one_object ''0123456789'') (AttrsRequest ''b'' ''k''))
   \<and> fst (UploadPartCopy_gcp (one_object ''0123456789'') ''b'' ''s'' ''d'' ''k'' 1 (Some \<lparr>Start = 0, End = 9\<rparr>))
     = Inr \<lparr>ID = ''d-mpu-s/u'', Number = 0, PartSize = 10\<rparr>"
  using UploadPartCopy_gcp_whole_object_only [of "Some \<lparr>Start = 1, End = 5\<rparr>"
      "one_object ''0123456789''" "''b''" "''k''" "''0123456789''" "''s''" "''d''" 1]
    UploadPartCopy_gcp_whole_object_only [of "Some \<lparr>Start = 0, End = 9\<rparr>"
      "one_object ''0123456789''" "''b''" "''k''" "''0123456789''" "''s''" "''d''" 1]
  by (auto simp: Valid_def one_object_def emulated_def partPrefix_def)

text \<open>
  Claim C4 as stated fails. The range check is the third guard of the function: a range
  that ends before it starts is answered with the validation error, and a partial range
  on an object whose attribute request fails, or on a source that does not exist, with
  the wrapped error of \<open>GetObjectAttrs\<close>; none with the unsupported-operation error.
\<close>

theorem UploadPartCopy_gcp_partial_range_counterexample:
  "objs (one_object ''0123456789'') (''b'', ''k'') = Some ''0123456789''
   \<and> fst (UploadPartCopy_gcp (one_object ''0123456789'') ''b'' ''s'' ''d'' ''k'' 1
            (Some \<lparr>Start = 5, End = 2\<rparr>))
       = Inl (InvalidByteRangeError 5 2)
   \<and> objs (attrs_unavailable ''0123456789'') (''b'', ''k'') = Some ''0123456789''
   \<and> fst (UploadPartCopy_gcp (attrs_unavailable ''0123456789'') ''b'' ''s'' ''d'' ''k'' 1
            (Some \<lparr>Start = 1, End = 5\<rparr>))
       = Inl (Wrapped ''failed to get object attributes'' (GCPError (GoogleAPIError 503)))
   \<and> fst (UploadPartCopy_gcp (one_object ''0123456789'') ''b'' ''s'' ''d'' ''absent'' 1
            (Some \<lparr>Start = 1, End = 5\<rparr>))
       = Inl (Wrapped ''failed to get object attributes'' (NotFoundError ''key'' ''absent''))"
  by (simp add: UploadPartCopy_gcp_def GetObjectAttrs_gcp_def svc_Attrs_def handle_gcp_def
      Valid_def attrs_unavailable_def one_object_def emulated_def called_def Let_def)

section \<open>The filters of \<open>IterateObjects\<close>\<close>

text \<open>
  Claim C6. On either provider, \<open>IterateObjects\<close> called with an include and an exclude
  set that are both non-empty returns the mutual-exclusion error and leaves the service
  as it was: no request is sent, the list of requests received is unchanged.
\<close>

theorem IterateObjects_both_filters_rejected:
  "include = Some (p # ps) \<and> exclude = Some (q # qs) \<longrightarrow>
     IterateObjects_gcp w bucket prefix delimiter include exclude fn u
       = ((Some ErrIncludeAndExcludeAreMutuallyExclusive, u), w)
     \<and> calls (snd (IterateObjects_gcp w bucket prefix delimiter include exclude fn u)) = calls w
     \<and> IterateObjects_aws s bucket prefix include exclude fn u
       = ((Some ErrIncludeAndExcludeAreMutuallyExclusive, u), s)
     \<and> s3_calls (snd (IterateObjects_aws s bucket prefix include exclude fn u)) = s3_calls s"
  by (simp add: IterateObjects_gcp_def IterateObjects_aws_def)

text \<open>The theorem at one pattern in each set, on the emulated backends.\<close>

theorem IterateObjects_both_filters_rejected_witness:
  "IterateObjects_gcp (emulated (\<lambda>x. None)) ''b'' ''p'' ''/'' (Some [\<lambda>k. True]) (Some [\<lambda>k. False])
       (\<lambda>attrs n. (None, Suc n)) (0::nat)
     = ((Some ErrIncludeAndExcludeAreMutuallyExclusive, 0), emulated (\<lambda>x. None))
   \<and> calls (snd (IterateObjects_gcp (emulated (\<lambda>x. None)) ''b'' ''p'' ''/'' (Some [\<lambda>k. True])
       (Some [\<lambda>k. False]) (\<lambda>attrs n. (None, Suc n)) (0::nat))) = []
   \<and> IterateObjects_aws (s3_emulated (\<lambda>x. None)) ''b'' ''p'' (Some [\<lambda>k. True]) (Some [\<lambda>k. False])
       (\<lambda>attrs n. (None, Suc n)) (0::nat)
     = ((Some ErrIncludeAndExcludeAreMutuallyExclusive, 0), s3_emulated (\<lambda>x. None))
   \<and> s3_calls (snd (IterateObjects_aws (s3_emulated (\<lambda>x. None)) ''b'' ''p'' (Some [\<lambda>k. True])
       (Some [\<lambda>k. False]) (\<lambda>attrs n. (None, Suc n)) (0::nat))) = []"
  using IterateObjects_both_filters_rejected [of "Some [\<lambda>k. True]" "\<lambda>k. True" "[]"
      "Some [\<lambda>k. False]" "\<lambda>k. False" "[]" "emulated (\<lambda>x. None)" "''b''" "''p''" "''/''"
      "\<lambda>attrs n. (None, Suc n)" "0::nat" "s3_emulated (\<lambda>x. None)"]
  by (simp add: emulated_def s3_emulated_def)

text \<open>
  Claim C10. On either provider the check is on the two slices being non-nil: the
  mutual-exclusion error is returned whenever both are present, also when both hold no
  pattern; and with either of them nil the listing request is sent.
\<close>

theorem IterateObjects_non_nil_filters_rejected:
  "(include \<noteq> None \<and> exclude \<noteq> None \<longrightarrow>
      IterateObjects_gcp w bucket prefix delimiter include exclude fn u
        = ((Some ErrIncludeAndExcludeAreMutuallyExclusive, u), w)
      \<and> IterateObjects_aws s bucket prefix include exclude fn u
        = ((Some ErrIncludeAndExcludeAreMutuallyExclusive, u), s))
   \<and> IterateObjects_gcp w bucket prefix delimiter (Some []) (Some []) fn u
        = ((Some ErrIncludeAndExcludeAreMutuallyExclusive, u), w)
   \<and> IterateObjects_aws s bucket prefix (Some []) (Some []) fn u
        = ((Some ErrIncludeAndExcludeAreMutuallyExclusive, u), s)
   \<and> (include = None \<or> exclude = None \<longrightarrow>
        calls (snd (IterateObjects_gcp w bucket prefix delimiter include exclude fn u))
          = calls w @ [ListRequest bucket prefix delimiter]
        \<and> s3_calls (snd (IterateObjects_aws s bucket prefix include exclude fn u))
          = s3_calls s @ [ListObjectsV2Input bucket prefix])"
  by (auto simp: IterateObjects_gcp_def IterateObjects_aws_def svc_Objects_def s3_ListObjectsV2_def
      called_def s3_called_def Let_def split: option.splits prod.splits sum.splits)

text \<open>
  The theorem at an include set of one pattern and an empty, non-nil exclude set, and at
  a nil include set.
\<close>

theorem IterateObjects_non_nil_filters_rejected_witness:
  "IterateObjects_gcp (emulated (\<lambda>x. None)) ''b'' ''p'' ''/'' (Some [\<lambda>k. True]) (Some [])
       (\<lambda>attrs n. (None, Suc n)) (0::nat)
     = ((Some ErrIncludeAndExcludeAreMutuallyExclusive, 0), emulated (\<lambda>x. None))
   \<and> IterateObjects_aws (s3_emulated (\<lambda>x. None)) ''b'' ''p'' (Some [\<lambda>k. True]) (Some [])
       (\<lambda>attrs n. (None, Suc n)) (0::nat)
     = ((Some ErrIncludeAndExcludeAreMutuallyExclusive, 0), s3_emulated (\<lambda>x. None))
   \<and> calls (snd (IterateObjects_gcp (emulated (\<lambda>x. None)) ''b'' ''p'' ''/'' None (Some [])
       (\<lambda>attrs n. (None, Suc n)) (0::nat))) = [ListRequest ''b'' ''p'' ''/'']"
  using IterateObjects_non_nil_filters_rejected [of "Some [\<lambda>k. True]" "Some []"
      "emulated (\<lambda>x. None)" "''b''" "''p''" "''/''" "\<lambda>attrs n. (None, Suc n)" "0::nat"
      "s3_emulated (\<lambda>x. None)"]
    IterateObjects_non_nil_filters_rejected [of None "Some []"
      "emulated (\<lambda>x. None)" "''b''" "''p''" "''/''" "\<lambda>attrs n. (None, Suc n)" "0::nat"
      "s3_emulated (\<lambda>x. None)"]
  by (simp add: emulated_def s3_emulated_def)

section \<open>\<open>AppendToObject\<close> creates the object\<close>

lemma PutObject_gcp_called:
  "fst (PutObject_gcp (called w r) bucket key data) = fst (PutObject_gcp w bucket key data)"
  "objs (snd (PutObject_gcp (called w r) bucket key data)) = objs (snd (PutObject_gcp w bucket key data))"
  by (simp_all add: PutObject_gcp_def svc_Write_def called_def Let_def split: option.splits)

lemma PutObject_aws_called:
  "fst (PutObject_aws (s3_called s r) bucket key data) = fst (PutObject_aws s bucket key data)"
  "s3_objs (snd (PutObject_aws (s3_called s r) bucket key data))
     = s3_objs (snd (PutObject_aws s bucket key data))"
  by (simp_all add: PutObject_aws_def s3_PutObject_def s3_called_def Let_def split: option.splits)

lemma PutObject_gcp_stores:
  "fst (PutObject_gcp w bucket key data) = None \<Longrightarrow>
     objs (snd (PutObject_gcp w bucket key data)) = (objs w)((bucket, key) \<mapsto> data)"
  by (auto simp: PutObject_gcp_def svc_Write_def called_def handleError_gcp_def Let_def
      split: option.splits)

lemma PutObject_aws_stores:
  "fst (PutObject_aws s bucket key data) = None \<Longrightarrow>
     s3_objs (snd (PutObject_aws s bucket key data)) = (s3_objs s)((bucket, key) \<mapsto> data)"
  by (auto simp: PutObject_aws_def s3_PutObject_def s3_called_def handleError_aws_def Let_def
      split: option.splits)

lemma AppendToObject_gcp_creates:
  assumes "faults w (AttrsRequest bucket key) = None"
    and "objs w (bucket, key) = None \<or> objs w (bucket, key) = Some []"
  shows "AppendToObject_gcp w bucket key data =
     (Returns (fst (PutObject_gcp (called w (AttrsRequest bucket key)) bucket key data)),
      snd (PutObject_gcp (called w (AttrsRequest bucket key)) bucket key data))"
  using assms
  by (auto simp: AppendToObject_gcp_def GetObjectAttrs_gcp_def svc_Attrs_def handle_gcp_def
      IsNotFoundError_def Let_def split: prod.splits)

lemma AppendToObject_aws_creates:
  assumes "s3_faults s (HeadObjectInput bucket key) = None" and "s3_objs s (bucket, key) = None"
  shows "AppendToObject_aws s bucket key data
     = PutObject_aws (s3_called s (HeadObjectInput bucket key)) bucket key data"
  using assms
  by (simp add: AppendToObject_aws_def GetObjectAttrs_aws_def s3_HeadObject_def handle_aws_def
      isKeyNotFound_def IsNotFoundError_def Let_def)

text \<open>
  Claim C2. For a bucket and key whose object is absent (for objgcp also: present with
  size 0) and whose attribute request is served, \<open>AppendToObject\<close> returns what
  \<open>PutObject(bucket, key, data)\<close> returns and leaves the objects \<open>PutObject\<close> leaves:
  its final state is that of \<open>PutObject\<close> run after the attribute request, and when the
  write succeeds the object at the key holds exactly the data. On both providers.
\<close>

theorem AppendToObject_creates_like_PutObject:
  "(faults w (AttrsRequest bucket key) = None
      \<and> (objs w (bucket, key) = None \<or> objs w (bucket, key) = Some []) \<longrightarrow>
      fst (AppendToObject_gcp w bucket key data) = Returns (fst (PutObject_gcp w bucket key data))
      \<and> objs (snd (AppendToObject_gcp w bucket key data))
          = objs (snd (PutObject_gcp w bucket key data))
      \<and> snd (AppendToObject_gcp w bucket key data)
          = snd (PutObject_gcp (called w (AttrsRequest bucket key)) bucket key data)
      \<and> (fst (PutObject_gcp w bucket key data) = None \<longrightarrow>
           objs (snd (AppendToObject_gcp w bucket key data)) = (objs w)((bucket, key) \<mapsto> data)))
   \<and> (s3_faults s (HeadObjectInput bucket key) = None \<and> s3_objs s (bucket, key) = None \<longrightarrow>
      fst (AppendToObject_aws s bucket key data) = fst (PutObject_aws s bucket key data)
      \<and> s3_objs (snd (AppendToObject_aws s bucket key data))
          = s3_objs (snd (PutObject_aws s bucket key data))
      \<and> snd (AppendToObject_aws s bucket key data)
          = snd (PutObject_aws (s3_called s (HeadObjectInput bucket key)) bucket key data)
      \<and> (fst (PutObject_aws s bucket key data) = None \<longrightarrow>
           s3_objs (snd (AppendToObject_aws s bucket key data)) = (s3_objs s)((bucket, key) \<mapsto> data)))"
proof (intro conjI impI)
  assume a: "faults w (AttrsRequest bucket key) = None
      \<and> (objs w (bucket, key) = None \<or> objs w (bucket, key) = Some [])"
  then have eq: "AppendToObject_gcp w bucket key data =
     (Returns (fst (PutObject_gcp (called w (AttrsRequest bucket key)) bucket key data)),
      snd (PutObject_gcp (called w (AttrsRequest bucket key)) bucket key data))"
    by (intro AppendToObject_gcp_creates) simp_all
  show "fst (AppendToObject_gcp w bucket key data) = Returns (fst (PutObject_gcp w bucket key data))"
    by (simp add: eq PutObject_gcp_called)
  show o: "objs (snd (AppendToObject_gcp w bucket key data))
          = objs (snd (PutObject_gcp w bucket key data))"
    by (simp add: eq PutObject_gcp_called)
  show "snd (AppendToObject_gcp w bucket key data)
          = snd (PutObject_gcp (called w (AttrsRequest bucket key)) bucket key data)"
    by (simp add: eq)
  assume "fst (PutObject_gcp w bucket key data) = None"
  then show "objs (snd (AppendToObject_gcp w bucket key data)) = (objs w)((bucket, key) \<mapsto> data)"
    by (simp add: o PutObject_gcp_stores)
next
  assume a: "s3_faults s (HeadObjectInput bucket key) = None \<and> s3_objs s (bucket, key) = None"
  then have eq: "AppendToObject_aws s bucket key data
     = PutObject_aws (s3_called s (HeadObjectInput bucket key)) bucket key data"
    by (intro AppendToObject_aws_creates) simp_all
  show "fst (AppendToObject_aws s bucket key data) = fst (PutObject_aws s bucket key data)"
    by (simp add: eq PutObject_aws_called)
  show o: "s3_objs (snd (AppendToObject_aws s bucket key data))
          = s3_objs (snd (PutObject_aws s bucket key data))"
    by (simp add: eq PutObject_aws_called)
  show "snd (AppendToObject_aws s bucket key data)
          = snd (PutObject_aws (s3_called s (HeadObjectInput bucket key)) bucket key data)"
    by (simp add: eq)
  assume "fst (PutObject_aws s bucket key data) = None"
  then show "s3_objs (snd (AppendToObject_aws s bucket key data)) = (s3_objs s)((bucket, key) \<mapsto> data)"
    by (simp add: o PutObject_aws_stores)
qed

text \<open>
  The theorem on the emulated backends: an absent key and an empty object on objgcp, an
  absent key on objaws.
\<close>

theorem AppendToObject_creates_like_PutObject_witness:
  "fst (AppendToObject_gcp (emulated (\<lambda>x. None)) ''b'' ''k'' ''data'') = Returns None
   \<and> objs (snd (AppendToObject_gcp (emulated (\<lambda>x. None)) ''b'' ''k'' ''data'')) (''b'', ''k'') = Some ''data''
   \<and> fst (AppendToObject_gcp (one_object []) ''b'' ''k'' ''data'') = Returns None
   \<and> objs (snd (AppendToObject_gcp (one_object []) ''b'' ''k'' ''data'')) (''b'', ''k'') = Some ''data''
   \<and> fst (AppendToObject_aws (s3_emulated (\<lambda>x. None)) ''b'' ''k'' ''data'') = None
   \<and> s3_objs (snd (AppendToObject_aws (s3_emulated (\<lambda>x. None)) ''b'' ''k'' ''data'')) (''b'', ''k'')
       = Some ''data''"
  using AppendToObject_creates_like_PutObject [of "emulated (\<lambda>x. None)" "''b''" "''k''" "''data''"
      "s3_emulated (\<lambda>x. None)"]
    AppendToObject_creates_like_PutObject [of "one_object []" "''b''" "''k''" "''data''"
      "s3_emulated (\<lambda>x. None)"]
  by (simp add: emulated_def one_object_def s3_emulated_def PutObject_gcp_def svc_Write_def
      PutObject_aws_def s3_PutObject_def called_def s3_called_def handleError_gcp_def
      handleError_aws_def Let_def)

section \<open>\<open>DeleteObjects\<close> of objaws sends the keys in batches\<close>

lemma s3_called_fields [simp]:
  "s3_objs (s3_called w r) = s3_objs w"
  "s3_faults (s3_called w r) = s3_faults w"
  "s3_key_faults (s3_called w r) = s3_key_faults w"
  "s3_calls (s3_called w r) = s3_calls w @ [r]"
  by (simp_all add: s3_called_def)

lemma delete_batch_fields:
  "delete_batch w bucket keys = (errs, w') \<Longrightarrow>
     s3_faults w' = s3_faults w \<and> s3_key_faults w' = s3_key_faults w \<and> s3_calls w' = s3_calls w"
proof (induction keys arbitrary: w errs w')
  case Nil
  then show ?case by simp
next
  case (Cons key keys)
  show ?case
  proof (cases "s3_key_faults w (bucket, key)")
    case None
    with Cons.prems have "delete_batch (w\<lparr>s3_objs := (s3_objs w)((bucket, key) := None)\<rparr>) bucket keys
        = (errs, w')" by simp
    from Cons.IH [OF this] show ?thesis by simp
  next
    case (Some e)
    obtain code message where e: "e = AwsError code message" by (cases e)
    obtain errs1 w1 where d: "delete_batch w bucket keys = (errs1, w1)"
      by (cases "delete_batch w bucket keys")
    with Cons.prems Some e have "w' = w1" by simp
    with Cons.IH [OF d] show ?thesis by simp
  qed
qed

lemma reports_failure_objs [simp]:
  "reports_failure (w\<lparr>s3_objs := f\<rparr>) bucket = reports_failure w bucket"
  by (rule ext) (simp add: reports_failure_def)

lemma first_failure_delete_batch:
  "(first_failure bucket (fst (delete_batch w bucket keys)) \<noteq> None)
     = list_ex (reports_failure w bucket) keys"
proof (induction keys arbitrary: w)
  case Nil
  then show ?case by simp
next
  case (Cons key keys)
  show ?case
  proof (cases "s3_key_faults w (bucket, key)")
    case None
    then have "\<not> reports_failure w bucket key" by (simp add: reports_failure_def)
    with None Cons.IH [of "w\<lparr>s3_objs := (s3_objs w)((bucket, key) := None)\<rparr>"]
    show ?thesis by simp
  next
    case (Some e)
    obtain code message where e: "e = AwsError code message" by (cases e)
    have r: "reports_failure w bucket key = (\<not> isKeyNotFound (AwsError code message))"
      using Some e by (simp add: reports_failure_def)
    obtain errs1 w1 where d: "delete_batch w bucket keys = (errs1, w1)"
      by (cases "delete_batch w bucket keys")
    from Cons.IH [of w] d
    have "(first_failure bucket errs1 \<noteq> None) = list_ex (reports_failure w bucket) keys" by simp
    with Some e r d show ?thesis by (simp add: Let_def)
  qed
qed

lemma deleteObjects_result:
  assumes "deleteObjects w bucket batch = (r, w')"
  shows "(r \<noteq> None) = batch_fails w bucket batch"
    and "s3_calls w' = s3_calls w @ [DeleteObjectsInput bucket batch True]"
    and "s3_faults w' = s3_faults w" and "s3_key_faults w' = s3_key_faults w"
proof -
  let ?w1 = "s3_called w (DeleteObjectsInput bucket batch True)"
  show "(r \<noteq> None) = batch_fails w bucket batch"
  proof (cases "s3_faults w (DeleteObjectsInput bucket batch True)")
    case (Some e)
    with assms show ?thesis
      by (auto simp: deleteObjects_def s3_DeleteObjects_def batch_fails_def Let_def)
  next
    case None
    have "reports_failure ?w1 bucket = reports_failure w bucket"
      by (rule ext) (simp add: reports_failure_def s3_called_def)
    with None assms first_failure_delete_batch [of bucket ?w1 batch] show ?thesis
      by (auto simp: deleteObjects_def s3_DeleteObjects_def batch_fails_def Let_def
          split: prod.splits)
  qed
  obtain errs w2 where d: "delete_batch ?w1 bucket batch = (errs, w2)"
    by (cases "delete_batch ?w1 bucket batch")
  from delete_batch_fields [OF d] assms d
  show "s3_calls w' = s3_calls w @ [DeleteObjectsInput bucket batch True]"
    and "s3_faults w' = s3_faults w" and "s3_key_faults w' = s3_key_faults w"
    by (auto simp: deleteObjects_def s3_DeleteObjects_def s3_called_def Let_def
        split: option.splits)
qed

lemma batch_fails_cong:
  "s3_faults w' = s3_faults w \<Longrightarrow> s3_key_faults w' = s3_key_faults w \<Longrightarrow>
     batch_fails w' bucket = batch_fails w bucket"
proof -
  assume f: "s3_faults w' = s3_faults w" and k: "s3_key_faults w' = s3_key_faults w"
  have "reports_failure w' bucket = reports_failure w bucket"
    by (rule ext) (simp add: reports_failure_def k)
  then show ?thesis by (intro ext) (simp add: batch_fails_def f cong: option.case_cong)
qed

lemma slice_page:
  "slice keys start (min (start + PageSize) (length keys)) = take PageSize (drop start keys)"
  by (simp add: slice_def min_def)

lemma batches_drop:
  "start < length keys \<Longrightarrow>
     batches (drop start keys)
       = take PageSize (drop start keys) # batches (drop (start + PageSize) keys)"
  by (subst batches.simps) (simp add: add.commute)

lemma batches_Nil [simp]: "batches [] = []"
  by (subst batches.simps) simp

lemma batches_done: "\<not> start < length keys \<Longrightarrow> batches (drop start keys) = []"
  by simp

lemma DeleteObjects_loop_result:
  "end' = start + PageSize \<Longrightarrow> DeleteObjects_loop w bucket keys start end' = (r, w') \<Longrightarrow>
     (r \<noteq> None) = list_ex (batch_fails w bucket) (batches (drop start keys))
     \<and> s3_calls w' = s3_calls w @ map (\<lambda>batch. DeleteObjectsInput bucket batch True)
          (sent (batch_fails w bucket) (batches (drop start keys)))"
proof (induction w bucket keys start end' arbitrary: r w' rule: DeleteObjects_loop.induct)
  case (1 w bucket keys start end')
  note e = "1.prems"(1) and l = "1.prems"(2)
  show ?case
  proof (cases "start < length keys")
    case False
    with l have "r = None" "w' = w" by (simp_all add: DeleteObjects_loop.simps)
    with False show ?thesis by (simp add: batches_done)
  next
    case True
    let ?batch = "take PageSize (drop start keys)"
    have sl: "slice keys start (min end' (length keys)) = ?batch"
      unfolding e by (rule slice_page)
    obtain r1 w1 where d: "deleteObjects w bucket (slice keys start (min end' (length keys))) = (r1, w1)"
      by (cases "deleteObjects w bucket (slice keys start (min end' (length keys)))")
    note res = deleteObjects_result [OF d [unfolded sl]]
    show ?thesis
    proof (cases r1)
      case (Some err)
      with l True d have "r = Some err" "w' = w1" by (simp_all add: DeleteObjects_loop.simps)
      with res Some show ?thesis by (simp add: batches_drop [OF True])
    next
      case None
      with l True d have rec: "DeleteObjects_loop w1 bucket keys (start + PageSize) (end' + PageSize)
          = (r, w')" by (simp add: DeleteObjects_loop.simps)
      have bf: "batch_fails w1 bucket = batch_fails w bucket"
        using res(3,4) by (rule batch_fails_cong)
      have nf: "\<not> batch_fails w bucket ?batch" using res(1) None by simp
      from "1.IH" [OF True d [symmetric] None _ rec] e
      have "(r \<noteq> None) = list_ex (batch_fails w bucket) (batches (drop (start + PageSize) keys))"
        and "s3_calls w' = s3_calls w1 @ map (\<lambda>batch. DeleteObjectsInput bucket batch True)
          (sent (batch_fails w bucket) (batches (drop (start + PageSize) keys)))"
        by (simp_all add: bf)
      with res(2) nf show ?thesis by (simp add: batches_drop [OF True])
    qed
  qed
qed

lemma batches_concat: "concat (batches keys) = keys"
proof (induction keys rule: batches.induct)
  case (1 keys)
  show ?case
  proof (cases "keys = []")
    case True
    then show ?thesis by (subst batches.simps) simp
  next
    case False
    with 1 have "concat (batches (drop PageSize keys)) = drop PageSize keys" by simp
    with False show ?thesis by (subst batches.simps) simp
  qed
qed

lemma batches_bounded:
  "list_all (\<lambda>batch. batch \<noteq> [] \<and> length batch \<le> PageSize) (batches keys)"
proof (induction keys rule: batches.induct)
  case (1 keys)
  show ?case
  proof (cases "keys = []")
    case True
    then show ?thesis by (subst batches.simps) simp
  next
    case False
    with 1 have "list_all (\<lambda>batch. batch \<noteq> [] \<and> length batch \<le> PageSize)
        (batches (drop PageSize keys))" by simp
    with False show ?thesis by (subst batches.simps) (simp add: PageSize_def)
  qed
qed

lemma delete_batch_served:
  "s3_key_faults w = (\<lambda>k. None) \<Longrightarrow> delete_batch w bucket keys = (errs, w') \<Longrightarrow>
     s3_objs w' = (\<lambda>x. if x \<in> {bucket} \<times> set keys then None else s3_objs w x)"
proof (induction keys arbitrary: w)
  case Nil
  then show ?case by simp
next
  case (Cons key keys)
  let ?w1 = "w\<lparr>s3_objs := (s3_objs w)((bucket, key) := None)\<rparr>"
  from Cons.prems have d: "delete_batch ?w1 bucket keys = (errs, w')" by simp
  have "s3_key_faults ?w1 = (\<lambda>k. None)" using Cons.prems(1) by simp
  from Cons.IH [OF this d] show ?case by auto
qed

lemma deleteObjects_served:
  assumes "s3_faults w = (\<lambda>r. None)" and "s3_key_faults w = (\<lambda>k. None)"
    and "deleteObjects w bucket batch = (r, w')"
  shows "s3_objs w' = (\<lambda>x. if x \<in> {bucket} \<times> set batch then None else s3_objs w x)"
proof -
  let ?w1 = "s3_called w (DeleteObjectsInput bucket batch True)"
  obtain errs w2 where d: "delete_batch ?w1 bucket batch = (errs, w2)"
    by (cases "delete_batch ?w1 bucket batch")
  have k: "s3_key_faults ?w1 = (\<lambda>k. None)" using assms(2) by simp
  from assms(1,3) d have "w' = w2"
    by (simp add: deleteObjects_def s3_DeleteObjects_def Let_def)
  with delete_batch_served [OF k d] show ?thesis by (simp cong: if_cong)
qed

lemma DeleteObjects_loop_served:
  "end' = start + PageSize \<Longrightarrow> s3_faults w = (\<lambda>r. None) \<Longrightarrow> s3_key_faults w = (\<lambda>k. None) \<Longrightarrow>
     DeleteObjects_loop w bucket keys start end' = (r, w') \<Longrightarrow>
     s3_objs w' = (\<lambda>x. if x \<in> {bucket} \<times> set (drop start keys) then None else s3_objs w x)"
proof (induction w bucket keys start end' arbitrary: r w' rule: DeleteObjects_loop.induct)
  case (1 w bucket keys start end')
  note e = "1.prems"(1) and f = "1.prems"(2) and k = "1.prems"(3) and l = "1.prems"(4)
  show ?case
  proof (cases "start < length keys")
    case False
    with l have "w' = w" by (simp add: DeleteObjects_loop.simps)
    with False show ?thesis by simp
  next
    case True
    let ?batch = "take PageSize (drop start keys)"
    have sl: "slice keys start (min end' (length keys)) = ?batch"
      unfolding e by (rule slice_page)
    obtain r1 w1 where d: "deleteObjects w bucket (slice keys start (min end' (length keys))) = (r1, w1)"
      by (cases "deleteObjects w bucket (slice keys start (min end' (length keys)))")
    note res = deleteObjects_result [OF d [unfolded sl]]
    have "\<not> batch_fails w bucket ?batch"
      using f k by (simp add: batch_fails_def reports_failure_def [abs_def] list_ex_iff)
    with res(1) have r1: "r1 = None" by simp
    with l True d have rec: "DeleteObjects_loop w1 bucket keys (start + PageSize) (end' + PageSize)
        = (r, w')" by (simp add: DeleteObjects_loop.simps)
    have o1: "s3_objs w1 = (\<lambda>x. if x \<in> {bucket} \<times> set ?batch then None else s3_objs w x)"
      using f k d [unfolded sl] by (rule deleteObjects_served)
    have f1: "s3_faults w1 = (\<lambda>r. None)" and k1: "s3_key_faults w1 = (\<lambda>k. None)"
      using res(3,4) f k by simp_all
    from "1.IH" [OF True d [symmetric] r1 _ f1 k1 rec] e
    have o': "s3_objs w' = (\<lambda>x. if x \<in> {bucket} \<times> set (drop (start + PageSize) keys) then None
        else s3_objs w1 x)" by simp
    have "set (drop start keys) = set ?batch \<union> set (drop (start + PageSize) keys)"
      by (metis add.commute append_take_drop_id drop_drop set_append)
    with o' o1 show ?thesis by auto
  qed
qed

text \<open>
  Claim C5. \<open>DeleteObjects\<close> of objaws cuts the keys into the batches of at most
  \<open>PageSize\<close> keys, none empty, that make up the list; it sends them in order, each with
  \<open>Quiet\<close> set, up to the first batch that fails; it returns an error if and only if a
  batch fails, that is, its request is answered with a failure or its response reports
  for one of its keys a failure other than "key not found". On a backend that serves
  every request the call succeeds and every key given is absent afterwards, whether or
  not it existed.
\<close>

theorem DeleteObjects_aws_batches:
  "concat (batches keys) = keys
   \<and> list_all (\<lambda>batch. batch \<noteq> [] \<and> length batch \<le> PageSize) (batches keys)
   \<and> s3_calls (snd (DeleteObjects_aws w bucket keys))
       = s3_calls w @ map (\<lambda>batch. DeleteObjectsInput bucket batch True)
           (sent (batch_fails w bucket) (batches keys))
   \<and> (fst (DeleteObjects_aws w bucket keys) \<noteq> None) = list_ex (batch_fails w bucket) (batches keys)
   \<and> (s3_faults w = (\<lambda>r. None) \<and> s3_key_faults w = (\<lambda>k. None) \<longrightarrow>
        fst (DeleteObjects_aws w bucket keys) = None
        \<and> s3_objs (snd (DeleteObjects_aws w bucket keys))
            = (\<lambda>x. if x \<in> {bucket} \<times> set keys then None else s3_objs w x))"
proof -
  obtain r w' where l: "DeleteObjects_loop w bucket keys 0 (0 + PageSize) = (r, w')"
    by (cases "DeleteObjects_loop w bucket keys 0 (0 + PageSize)")
  then have d: "DeleteObjects_aws w bucket keys = (r, w')" by (simp add: DeleteObjects_aws_def)
  from DeleteObjects_loop_result [OF refl l]
  have a: "(r \<noteq> None) = list_ex (batch_fails w bucket) (batches keys)"
    and b: "s3_calls w' = s3_calls w @ map (\<lambda>batch. DeleteObjectsInput bucket batch True)
          (sent (batch_fails w bucket) (batches keys))" by simp_all
  have c: "r = None \<and> s3_objs w' = (\<lambda>x. if x \<in> {bucket} \<times> set keys then None else s3_objs w x)"
    if f: "s3_faults w = (\<lambda>r. None)" and k: "s3_key_faults w = (\<lambda>k. None)"
  proof
    have "\<not> batch_fails w bucket batch" for batch
      using f k by (simp add: batch_fails_def reports_failure_def [abs_def] list_ex_iff)
    with a show "r = None" by (simp add: list_ex_iff)
    from DeleteObjects_loop_served [OF refl f k l]
    show "s3_objs w' = (\<lambda>x. if x \<in> {bucket} \<times> set keys then None else s3_objs w x)" by simp
  qed
  from a b c batches_concat [of keys] batches_bounded [of keys] show ?thesis
    unfolding d by simp
qed

text \<open>
  The theorem at 1001 keys (two batches, of 1000 and of 1), at existing keys mixed with
  one reported as not found, and at a key whose deletion is denied.
\<close>

lemma batches_two: "batches (replicate 1001 ''k'') = [replicate 1000 ''k'', [''k'']]"
  by (simp add: batches.simps [of "replicate 1001 ''k''"] batches.simps [of "[''k'']"] PageSize_def)

lemma batches_one: "batches [''a'', ''gone'', ''c''] = [[''a'', ''gone'', ''c'']]"
  "batches [''a''] = [[''a'']]"
  by (simp_all add: batches.simps [of "[''a'', ''gone'', ''c'']"] batches.simps [of "[''a'']"]
      PageSize_def)

theorem DeleteObjects_aws_batches_witness:
  "s3_calls (snd (DeleteObjects_aws (s3_emulated (\<lambda>x. None)) ''b'' (replicate 1001 ''k'')))
     = [DeleteObjectsInput ''b'' (replicate 1000 ''k'') True, DeleteObjectsInput ''b'' [''k''] True]
   \<and> fst (DeleteObjects_aws (s3_emulated (\<lambda>x. None)) ''b'' (replicate 1001 ''k'')) = None
   \<and> fst (DeleteObjects_aws mixed_keys ''b'' [''a'', ''gone'', ''c'']) = None
   \<and> s3_calls (snd (DeleteObjects_aws mixed_keys ''b'' [''a'', ''gone'', ''c'']))
     = [DeleteObjectsInput ''b'' [''a'', ''gone'', ''c''] True]
   \<and> fst (DeleteObjects_aws access_denied ''b'' [''a'']) \<noteq> None"
  using DeleteObjects_aws_batches [of "replicate 1001 ''k''" "s3_emulated (\<lambda>x. None)" "''b''"]
    DeleteObjects_aws_batches [of "[''a'', ''gone'', ''c'']" mixed_keys "''b''"]
    DeleteObjects_aws_batches [of "[''a'']" access_denied "''b''"]
  by (simp add: batches_two batches_one batch_fails_def reports_failure_def isKeyNotFound_def
      s3_emulated_def mixed_keys_def access_denied_def list_ex_iff)

end
